theory Spec2Isabelle
  imports Complex_Main "HOL-Library.AList"
begin

section \<open>JSON values and Python dictionaries\<close>

text \<open>
  The program of \<^verbatim>\<open>src/main.py\<close> works on the values that \<^verbatim>\<open>json.loads\<close> produces:
  \<^verbatim>\<open>None\<close>, booleans, integers, floats, strings, lists and dictionaries with string keys.
  A dictionary is an association list in insertion order; a well-formed dictionary has
  distinct keys. A float is represented by the real number it denotes (the non-finite
  floats are not represented; the program never computes with numbers). Characters are
  code points below 256.
\<close>

datatype json =
    JNull
  | JBool bool
  | JInt int
  | JFloat real
  | JStr string
  | JArr "json list"
  | JObj "(string \<times> json) list"

type_synonym dict = "(string \<times> json) list"

text \<open>
  The exceptions the program can raise. \<open>NonStringKey\<close> is not a Python exception: it marks
  the one run this model does not follow, a dictionary update from a sequence of pairs that
  would create a key that is not a string.
\<close>

datatype error =
    KeyError
  | TypeError
  | ValueError
  | AttributeError
  | AssertionError
  | JSONDecodeError
  | RecursionError
  | RequestError
  | NonStringKey

definition is_obj :: "json \<Rightarrow> bool" where
  "is_obj j = (case j of JObj d \<Rightarrow> True | _ \<Rightarrow> False)"

text \<open>\<^verbatim>\<open>iter(x)\<close>: a list yields its elements, a dictionary its keys, a string its characters.\<close>

fun py_iter :: "json \<Rightarrow> error + json list" where
  "py_iter (JArr xs) = Inr xs"
| "py_iter (JObj d) = Inr (map (\<lambda>kv. JStr (fst kv)) d)"
| "py_iter (JStr s) = Inr (map (\<lambda>c. JStr [c]) s)"
| "py_iter JNull = Inl TypeError"
| "py_iter (JBool b) = Inl TypeError"
| "py_iter (JInt i) = Inl TypeError"
| "py_iter (JFloat r) = Inl TypeError"

text \<open>\<^verbatim>\<open>d.update(new)\<close> for a dictionary \<^verbatim>\<open>new\<close>: each item is stored in turn; an existing key
  keeps its position, a new key goes to the end.\<close>

definition dict_update :: "dict \<Rightarrow> dict \<Rightarrow> dict" where
  "dict_update d new = fold (\<lambda>kv acc. AList.update (fst kv) (snd kv) acc) new d"

text \<open>One element of a dictionary update sequence: it must be iterable, of length two, with a
  hashable first component.\<close>

definition update_item :: "dict \<Rightarrow> json \<Rightarrow> error + dict" where
  "update_item d e =
     (case py_iter e of
        Inl err \<Rightarrow> Inl TypeError
      | Inr items \<Rightarrow>
          if length items \<noteq> 2 then Inl ValueError
          else (case hd items of
                  JStr s \<Rightarrow> Inr (AList.update s (hd (tl items)) d)
                | JArr xs \<Rightarrow> Inl TypeError
                | JObj kvs \<Rightarrow> Inl TypeError
                | _ \<Rightarrow> Inl NonStringKey))"

fun update_items :: "dict \<Rightarrow> json list \<Rightarrow> error + dict" where
  "update_items d [] = Inr d"
| "update_items d (e # es) =
     (case update_item d e of Inl err \<Rightarrow> Inl err | Inr d' \<Rightarrow> update_items d' es)"

text \<open>\<^verbatim>\<open>d.update(other)\<close> for any value \<^verbatim>\<open>other\<close>.\<close>

definition py_update :: "dict \<Rightarrow> json \<Rightarrow> error + dict" where
  "py_update d other =
     (case other of
        JObj new \<Rightarrow> Inr (dict_update d new)
      | _ \<Rightarrow> (case py_iter other of
                Inl err \<Rightarrow> Inl TypeError
              | Inr es \<Rightarrow> update_items d es))"

section \<open>The recovery parser: \<^verbatim>\<open>parse_truncated_json\<close>\<close>

definition dquote :: char where
  "dquote = CHR 0x22"

definition backslash :: char where
  "backslash = CHR 0x5C"

text \<open>\<^verbatim>\<open>str.isspace\<close> on the code points below 256, and \<^verbatim>\<open>str.strip()\<close>.\<close>

definition isspace :: "char \<Rightarrow> bool" where
  "isspace c = (c \<in> set [CHR 0x09, CHR 0x0A, CHR 0x0B, CHR 0x0C, CHR 0x0D,
                          CHR 0x1C, CHR 0x1D, CHR 0x1E, CHR 0x1F, CHR 0x20,
                          CHR 0x85, CHR 0xA0])"

definition strip :: "string \<Rightarrow> string" where
  "strip s = rev (dropWhile isspace (rev (dropWhile isspace s)))"

text \<open>Lines 17 to 21: the text is stripped and loses one leading \<^verbatim>\<open>{\<close> and one trailing \<^verbatim>\<open>}\<close>.\<close>

definition strip_braces :: "string \<Rightarrow> string" where
  "strip_braces json_str =
     (let content = strip json_str;
          content = (case content of [] \<Rightarrow> [] | c # cs \<Rightarrow> if c = CHR ''{'' then cs else content);
          content = (if content \<noteq> [] \<and> last content = CHR ''}'' then butlast content else content)
      in content)"

text \<open>The local variables of the scan loop (lines 31 to 37). The variable \<^verbatim>\<open>pos\<close> and the
  result of \<^verbatim>\<open>re.findall\<close> (line 27) are never read and are left out.\<close>

record scan_state =
  pairs :: "string list"
  brace_count :: int
  bracket_count :: int
  in_string :: bool
  escape_next :: bool
  current_pair :: string

definition scan_init :: scan_state where
  "scan_init = \<lparr>pairs = [], brace_count = 0, bracket_count = 0, in_string = False,
                escape_next = False, current_pair = []\<rparr>"

text \<open>One iteration of the loop of lines 39 to 70.\<close>

definition scan_char :: "scan_state \<Rightarrow> char \<Rightarrow> scan_state" where
  "scan_char st c =
     (if escape_next st then
        st\<lparr>escape_next := False, current_pair := current_pair st @ [c]\<rparr>
      else if c = backslash \<and> in_string st then
        st\<lparr>escape_next := True, current_pair := current_pair st @ [c]\<rparr>
      else
        let st1 = (if c = dquote \<and> \<not> escape_next st
                   then st\<lparr>in_string := \<not> in_string st\<rparr> else st)
        in
          if \<not> in_string st1 then
            if c = CHR ''{'' then
              st1\<lparr>brace_count := brace_count st1 + 1, current_pair := current_pair st1 @ [c]\<rparr>
            else if c = CHR ''}'' then
              st1\<lparr>brace_count := brace_count st1 - 1, current_pair := current_pair st1 @ [c]\<rparr>
            else if c = CHR ''['' then
              st1\<lparr>bracket_count := bracket_count st1 + 1, current_pair := current_pair st1 @ [c]\<rparr>
            else if c = CHR '']'' then
              st1\<lparr>bracket_count := bracket_count st1 - 1, current_pair := current_pair st1 @ [c]\<rparr>
            else if c = CHR '','' \<and> brace_count st1 = 0 \<and> bracket_count st1 = 0 then
              let pair = strip (current_pair st1)
              in st1\<lparr>pairs := (if CHR '':'' \<in> set pair then pairs st1 @ [pair] else pairs st1),
                      current_pair := []\<rparr>
            else
              st1\<lparr>current_pair := current_pair st1 @ [c]\<rparr>
          else
            st1\<lparr>current_pair := current_pair st1 @ [c]\<rparr>)"

text \<open>Lines 72 to 79: the last pair is kept when it is not blank, holds a colon and both
  counters are zero.\<close>

definition scan_finish :: "scan_state \<Rightarrow> string list" where
  "scan_finish st =
     (if strip (current_pair st) \<noteq> [] \<and> CHR '':'' \<in> set (current_pair st)
         \<and> brace_count st = 0 \<and> bracket_count st = 0
      then pairs st @ [strip (current_pair st)]
      else pairs st)"

text \<open>The list \<^verbatim>\<open>pairs\<close> when line 82 is reached.\<close>

definition scan_pairs :: "string \<Rightarrow> string list" where
  "scan_pairs json_str = scan_finish (fold (\<lambda>c st. scan_char st c) (strip_braces json_str) scan_init)"

text \<open>Lines 82 to 90. The decoder \<^verbatim>\<open>json.loads\<close> is a parameter: it returns a value or raises
  an exception. The handler of line 88 catches \<^verbatim>\<open>json.JSONDecodeError\<close> and nothing else, so
  every other exception of the decoder (a plain \<^verbatim>\<open>ValueError\<close> for an integer literal beyond
  the digit limit of the interpreter, \<^verbatim>\<open>RecursionError\<close> for deep nesting) leaves the loop.\<close>

definition parse_pair :: "(string \<Rightarrow> error + json) \<Rightarrow> dict \<Rightarrow> string \<Rightarrow> error + dict" where
  "parse_pair json_loads result pair =
     (case json_loads (''{'' @ pair @ ''}'') of
        Inl err \<Rightarrow> if err = JSONDecodeError then Inr result else Inl err
      | Inr parsed \<Rightarrow> py_update result parsed)"

fun parse_pairs :: "(string \<Rightarrow> error + json) \<Rightarrow> dict \<Rightarrow> string list \<Rightarrow> error + dict" where
  "parse_pairs json_loads result [] = Inr result"
| "parse_pairs json_loads result (pair # ps) =
     (case parse_pair json_loads result pair of
        Inl err \<Rightarrow> Inl err
      | Inr result' \<Rightarrow> parse_pairs json_loads result' ps)"

definition parse_truncated_json :: "(string \<Rightarrow> error + json) \<Rightarrow> string \<Rightarrow> error + dict" where
  "parse_truncated_json json_loads json_str = parse_pairs json_loads [] (scan_pairs json_str)"

text \<open>A decoder given by a finite table of documents and what \<^verbatim>\<open>json.loads\<close> does on each (the
  value it returns or the exception it raises); every other text is rejected with the decode
  error. It stands for \<^verbatim>\<open>json.loads\<close> on the documents of a concrete run.\<close>

definition table_loads :: "(string \<times> (error + json)) list \<Rightarrow> string \<Rightarrow> error + json" where
  "table_loads tbl s = (case map_of tbl s of None \<Rightarrow> Inl JSONDecodeError | Some r \<Rightarrow> r)"

section \<open>Python operations on JSON values\<close>

text \<open>Sequencing of steps that may raise: the first exception ends the computation.\<close>

definition bind_err :: "'e + 'a \<Rightarrow> ('a \<Rightarrow> 'e + 'b) \<Rightarrow> 'e + 'b" where
  "bind_err m f = (case m of Inl e \<Rightarrow> Inl e | Inr x \<Rightarrow> f x)"

text \<open>A \<^verbatim>\<open>for\<close> loop over a list whose body may raise.\<close>

fun fold_err :: "('s \<Rightarrow> 'a \<Rightarrow> 'e + 's) \<Rightarrow> 'a list \<Rightarrow> 's \<Rightarrow> 'e + 's" where
  "fold_err f [] s = Inr s"
| "fold_err f (x # xs) s = (case f s x of Inl e \<Rightarrow> Inl e | Inr s' \<Rightarrow> fold_err f xs s')"

text \<open>\<^verbatim>\<open>needle in text\<close> on strings.\<close>

definition is_substring :: "string \<Rightarrow> string \<Rightarrow> bool" where
  "is_substring needle s =
     list_ex (\<lambda>i. take (length needle) (drop i s) = needle) [0 ..< Suc (length s)]"

text \<open>\<^verbatim>\<open>k in x\<close> for a string \<^verbatim>\<open>k\<close>.\<close>

fun py_contains :: "string \<Rightarrow> json \<Rightarrow> error + bool" where
  "py_contains k (JObj d) = Inr (map_of d k \<noteq> None)"
| "py_contains k (JStr s) = Inr (is_substring k s)"
| "py_contains k (JArr xs) = Inr (JStr k \<in> set xs)"
| "py_contains k JNull = Inl TypeError"
| "py_contains k (JBool b) = Inl TypeError"
| "py_contains k (JInt i) = Inl TypeError"
| "py_contains k (JFloat r) = Inl TypeError"

text \<open>\<^verbatim>\<open>x[k]\<close> for a string \<^verbatim>\<open>k\<close>.\<close>

fun py_getitem :: "json \<Rightarrow> string \<Rightarrow> error + json" where
  "py_getitem (JObj d) k = (case map_of d k of None \<Rightarrow> Inl KeyError | Some v \<Rightarrow> Inr v)"
| "py_getitem j k = Inl TypeError"

text \<open>\<^verbatim>\<open>x[k] = v\<close> for a string \<^verbatim>\<open>k\<close>; the value of \<^verbatim>\<open>x\<close> afterwards.\<close>

fun py_setitem :: "json \<Rightarrow> string \<Rightarrow> json \<Rightarrow> error + json" where
  "py_setitem (JObj d) k v = Inr (JObj (AList.update k v d))"
| "py_setitem j k v = Inl TypeError"

text \<open>\<^verbatim>\<open>x.items()\<close>.\<close>

fun py_items :: "json \<Rightarrow> error + (string \<times> json) list" where
  "py_items (JObj d) = Inr d"
| "py_items j = Inl AttributeError"

text \<open>\<^verbatim>\<open>x.update(y)\<close>; the value of \<^verbatim>\<open>x\<close> afterwards.\<close>

fun py_update_method :: "json \<Rightarrow> json \<Rightarrow> error + json" where
  "py_update_method (JObj d) y = bind_err (py_update d y) (\<lambda>d'. Inr (JObj d'))"
| "py_update_method j y = Inl AttributeError"

text \<open>Truth value of a JSON value (\<^verbatim>\<open>not x\<close> is its negation).\<close>

fun truthy :: "json \<Rightarrow> bool" where
  "truthy JNull = False"
| "truthy (JBool b) = b"
| "truthy (JInt i) = (i \<noteq> 0)"
| "truthy (JFloat r) = (r \<noteq> 0)"
| "truthy (JStr s) = (s \<noteq> [])"
| "truthy (JArr xs) = (xs \<noteq> [])"
| "truthy (JObj d) = (d \<noteq> [])"

text \<open>Hashable values (the possible members of a \<^verbatim>\<open>set\<close>) and their equality: booleans,
  integers and floats compare by their numeric value.\<close>

fun py_hashable :: "json \<Rightarrow> bool" where
  "py_hashable (JArr xs) = False"
| "py_hashable (JObj d) = False"
| "py_hashable j = True"

fun py_num :: "json \<Rightarrow> real option" where
  "py_num (JBool b) = Some (if b then 1 else 0)"
| "py_num (JInt i) = Some (real_of_int i)"
| "py_num (JFloat r) = Some r"
| "py_num j = None"

definition py_eq :: "json \<Rightarrow> json \<Rightarrow> bool" where
  "py_eq a b =
     (case py_num a of
        Some x \<Rightarrow> (case py_num b of Some y \<Rightarrow> x = y | None \<Rightarrow> False)
      | None \<Rightarrow> (case py_num b of Some y \<Rightarrow> False | None \<Rightarrow> a = b))"

text \<open>\<^verbatim>\<open>x in s\<close> and \<^verbatim>\<open>s.add(x)\<close> for a set \<^verbatim>\<open>s\<close>, kept as the list of its members.\<close>

definition set_contains :: "json list \<Rightarrow> json \<Rightarrow> error + bool" where
  "set_contains members x = (if py_hashable x then Inr (list_ex (py_eq x) members) else Inl TypeError)"

definition set_add :: "json list \<Rightarrow> json \<Rightarrow> error + json list" where
  "set_add members x =
     (if py_hashable x then Inr (if list_ex (py_eq x) members then members else members @ [x])
      else Inl TypeError)"

section \<open>The fragment merger: \<^verbatim>\<open>merge_oas_definitions\<close>\<close>

text \<open>
  The source copies \<^verbatim>\<open>base\<close> shallowly and then mutates the sections in place, storing
  references to parts of \<^verbatim>\<open>new\<close>. The model passes values: \<open>merged\<close> is the value of the
  whole tree, and a store into a section is written back into the tree. On the data of a
  crawl both agree: every fragment is a freshly decoded tree, used for one merge, and nothing
  below a stored reference is mutated except by a later update of the same entry.
\<close>

text \<open>The body of the loop of lines 162 to 166, for one item of \<^verbatim>\<open>new["paths"]\<close>.\<close>

definition merge_path :: "dict \<Rightarrow> string \<times> json \<Rightarrow> error + dict" where
  "merge_path merged item =
     (let path = fst item; methods = snd item in
      bind_err (py_getitem (JObj merged) ''paths'') (\<lambda>mpaths.
      bind_err (py_contains path mpaths) (\<lambda>present.
        if \<not> present then
          bind_err (py_setitem mpaths path methods) (\<lambda>mpaths'.
          Inr (AList.update ''paths'' mpaths' merged))
        else
          bind_err (py_getitem mpaths path) (\<lambda>existing.
          bind_err (py_update_method existing methods) (\<lambda>existing'.
          bind_err (py_setitem mpaths path existing') (\<lambda>mpaths'.
          Inr (AList.update ''paths'' mpaths' merged)))))))"

text \<open>The body of the loop of lines 173 to 177, for one item of a section of
  \<^verbatim>\<open>new["components"]\<close>.\<close>

definition merge_component_item :: "string \<Rightarrow> dict \<Rightarrow> string \<times> json \<Rightarrow> error + dict" where
  "merge_component_item section merged entry =
     (let name = fst entry; item = snd entry in
      bind_err (py_getitem (JObj merged) ''components'') (\<lambda>mcomps.
      bind_err (py_getitem mcomps section) (\<lambda>msection.
      bind_err (py_contains name msection) (\<lambda>present.
        if \<not> present then
          bind_err (py_setitem msection name item) (\<lambda>msection'.
          bind_err (py_setitem mcomps section msection') (\<lambda>mcomps'.
          Inr (AList.update ''components'' mcomps' merged)))
        else
          bind_err (py_getitem msection name) (\<lambda>existing.
          bind_err (py_update_method existing item) (\<lambda>existing'.
          bind_err (py_setitem msection name existing') (\<lambda>msection'.
          bind_err (py_setitem mcomps section msection') (\<lambda>mcomps'.
          Inr (AList.update ''components'' mcomps' merged)))))))))"

text \<open>The body of the loop of lines 169 to 177, for one element of the iteration over
  \<^verbatim>\<open>new["components"]\<close>. An element that is not a string leaves the model.\<close>

definition merge_component :: "json \<Rightarrow> dict \<Rightarrow> json \<Rightarrow> error + dict" where
  "merge_component ncomps merged section_key =
     (case section_key of
        JStr section \<Rightarrow>
          bind_err (py_getitem (JObj merged) ''components'') (\<lambda>mcomps.
          bind_err (py_contains section mcomps) (\<lambda>present.
            if \<not> present then
              bind_err (py_getitem ncomps section) (\<lambda>nsection.
              bind_err (py_setitem mcomps section nsection) (\<lambda>mcomps'.
              Inr (AList.update ''components'' mcomps' merged)))
            else
              bind_err (py_getitem ncomps section) (\<lambda>nsection.
              bind_err (py_items nsection) (\<lambda>entries.
              fold_err (merge_component_item section) entries merged))))
      | _ \<Rightarrow> Inl NonStringKey)"

definition merge_oas_definitions :: "dict \<Rightarrow> json \<Rightarrow> error + dict" where
  "merge_oas_definitions base new =
     (let merged = base in
      bind_err (py_contains ''paths'' new) (\<lambda>has_paths.
      bind_err (if has_paths then
                  bind_err (py_getitem new ''paths'') (\<lambda>npaths.
                  bind_err (py_items npaths) (\<lambda>items.
                  fold_err merge_path items merged))
                else Inr merged) (\<lambda>merged.
      bind_err (py_contains ''components'' new) (\<lambda>has_components.
        if has_components then
          bind_err (py_getitem new ''components'') (\<lambda>ncomps.
          bind_err (py_iter ncomps) (\<lambda>sections.
          fold_err (merge_component ncomps) sections merged))
        else Inr merged))))"

section \<open>Fetching a page: \<^verbatim>\<open>fetch_ssr_props\<close>\<close>

text \<open>
  The library functions and the network are parameters: the SHA-256 hex digest, the HTTP
  request (an exception, or a status code and a body), the HTML parser reduced to what the
  program asks of it (the \<^verbatim>\<open>data-initial-props\<close> attribute of the \<^verbatim>\<open>script\<close> element with
  id \<^verbatim>\<open>ssr-props\<close>: \<open>None\<close> when there is no such element, \<open>Some None\<close> when it lacks the
  attribute), the JSON decoder and the JSON encoder. The files under \<^verbatim>\<open>out/\<close> are a map from
  path to content; opening a file for writing is taken to succeed. \<^verbatim>\<open>print\<close> and
  \<^verbatim>\<open>time.sleep\<close> are left out.
\<close>

record env =
  env_sha256 :: "string \<Rightarrow> string"
  env_get :: "string \<Rightarrow> error + (nat \<times> string)"
  env_soup :: "string \<Rightarrow> string option option"
  env_loads :: "string \<Rightarrow> error + json"
  env_dumps :: "json \<Rightarrow> string"

type_synonym filesystem = "string \<rightharpoonup> string"

text \<open>\<^verbatim>\<open>s.find(needle, start)\<close>, with \<open>None\<close> for \<^verbatim>\<open>-1\<close>.\<close>

definition str_find :: "string \<Rightarrow> string \<Rightarrow> nat \<Rightarrow> nat option" where
  "str_find s needle start =
     find (\<lambda>i. take (length needle) (drop i s) = needle) [start ..< Suc (length s)]"

definition tag_needle :: string where
  \<open>tag_needle = ''id="ssr-props"''\<close>

definition attr_needle :: string where
  \<open>attr_needle = ''data-initial-props="''\<close>

text \<open>Lines 137 to 155: from the (possibly repaired) HTML to the returned data.\<close>

definition extract_props ::
  "env \<Rightarrow> string \<Rightarrow> bool \<Rightarrow> string \<Rightarrow> filesystem \<Rightarrow> (error + json) \<times> filesystem" where
  "extract_props env cache_file is_truncated html_content fs =
     (case env_soup env html_content of
        None \<Rightarrow> (Inl AssertionError, fs)
      | Some None \<Rightarrow> (Inl AssertionError, fs)
      | Some (Some data_json) \<Rightarrow>
          (case (if is_truncated then
                   bind_err (parse_truncated_json (env_loads env) data_json) (\<lambda>data.
                     if map_of data ''oasDefinition'' = None then Inl AssertionError
                     else Inr (JObj data))
                 else
                   (case env_loads env data_json of
                      Inl err \<Rightarrow> Inl err
                    | Inr data \<Rightarrow> if is_obj data then Inr data else Inl AssertionError)) of
             Inl err \<Rightarrow> (Inl err, fs)
           | Inr data \<Rightarrow>
               (Inr data, (fs(cache_file \<mapsto> env_dumps env data))(''out/processing.html'' := None))))"

definition fetch_ssr_props :: "env \<Rightarrow> string \<Rightarrow> filesystem \<Rightarrow> (error + json) \<times> filesystem" where
  "fetch_ssr_props env url fs =
     (let cache_key = env_sha256 env url;
          not_found_cache_file = ''out/cache/not_found_'' @ cache_key;
          cache_file = ''out/cache/ssr_props_'' @ cache_key @ ''.json''
      in
        if fs not_found_cache_file \<noteq> None then (Inr JNull, fs)
        else (case fs cache_file of
           Some cached \<Rightarrow>
             (case env_loads env cached of
                Inl err \<Rightarrow> (Inl err, fs)
              | Inr data \<Rightarrow> (Inr data, fs))
         | None \<Rightarrow>
             (case env_get env url of
                Inl err \<Rightarrow> (Inl err, fs)
              | Inr resp \<Rightarrow>
                  if fst resp \<noteq> 200 then
                    (Inr JNull, if fst resp = 404 then fs(not_found_cache_file \<mapsto> []) else fs)
                  else
                    (let fs1 = fs(''out/processing.html'' \<mapsto> snd resp);
                         html_content = snd resp
                     in case str_find html_content tag_needle 0 of
                          None \<Rightarrow> (Inl AssertionError, fs1)
                        | Some tag_start \<Rightarrow>
                            (case str_find html_content attr_needle (tag_start + length tag_needle) of
                               None \<Rightarrow> (Inl AssertionError, fs1)
                             | Some attr_start \<Rightarrow>
                                 if str_find html_content [dquote] (attr_start + length attr_needle) = None
                                 then extract_props env cache_file True
                                        (html_content @ [dquote] @ ''></script>'') fs1
                                 else extract_props env cache_file False html_content fs1)))))"

section \<open>The crawl: \<^verbatim>\<open>main\<close>\<close>

text \<open>The state of the crawl: the files, the accumulating tree \<^verbatim>\<open>oas_definition\<close>, and the URLs
  passed to \<^verbatim>\<open>fetch_ssr_props\<close> by the loop over the reference pages (line 210), in order. An
  exception carries the state in which it was raised.\<close>

record crawl_state =
  files :: filesystem
  oas_definition :: dict
  fetched :: "string list"

definition raise_in :: "'s \<Rightarrow> error + 'a \<Rightarrow> (error \<times> 's) + 'a" where
  "raise_in st m = (case m of Inl e \<Rightarrow> Inl (e, st) | Inr x \<Rightarrow> Inr x)"

text \<open>Lines 189 to 193: the set of slugs of the pages that are not reference pages.\<close>

definition collect_page :: "json list \<Rightarrow> json \<Rightarrow> error + json list" where
  "collect_page non_reference_pages page =
     bind_err (py_getitem page ''isReference'') (\<lambda>r.
       if \<not> truthy r then
         bind_err (py_getitem page ''slug'') (\<lambda>slug. set_add non_reference_pages slug)
       else Inr non_reference_pages)"

definition collect_doc :: "json list \<Rightarrow> json \<Rightarrow> error + json list" where
  "collect_doc non_reference_pages doc =
     bind_err (py_getitem doc ''pages'') (\<lambda>pages.
     bind_err (py_iter pages) (\<lambda>ps.
     fold_err collect_page ps non_reference_pages))"

definition collect_non_reference :: "json \<Rightarrow> error + json list" where
  "collect_non_reference docs = bind_err (py_iter docs) (\<lambda>ds. fold_err collect_doc ds [])"

text \<open>Lines 195 to 197.\<close>

definition url_prefix_of :: "string \<Rightarrow> string" where
  "url_prefix_of start_url =
     (if \<not> (start_url \<noteq> [] \<and> last start_url = CHR ''/'') then start_url @ ''/'' else start_url)"

text \<open>Lines 199 to 201: the copy of the start page's fragment with both sections reset. Only a
  dictionary and a list have a \<^verbatim>\<open>copy\<close> method, and a list takes no string index.\<close>

definition seed_oas :: "json \<Rightarrow> error + dict" where
  "seed_oas od =
     (case od of
        JObj d \<Rightarrow> Inr (AList.update ''components'' (JObj []) (AList.update ''paths'' (JObj []) d))
      | JArr xs \<Rightarrow> Inl TypeError
      | _ \<Rightarrow> Inl AttributeError)"

text \<open>Lines 205 to 217: the body of the inner loop, for one page of a reference group.\<close>

definition crawl_page ::
  "env \<Rightarrow> string \<Rightarrow> json list \<Rightarrow> crawl_state \<Rightarrow> json \<Rightarrow> (error \<times> crawl_state) + crawl_state" where
  "crawl_page env url_prefix non_reference_pages st page =
     bind_err (raise_in st (py_getitem page ''slug'')) (\<lambda>slug.
     bind_err (raise_in st (set_contains non_reference_pages slug)) (\<lambda>skip.
     bind_err (raise_in st (py_getitem page ''title'')) (\<lambda>title.
       if skip then Inr st
       else
         (case slug of
            JStr s \<Rightarrow>
              (let url = url_prefix @ s;
                   res = fetch_ssr_props env url (files st);
                   st1 = st\<lparr>files := snd res, fetched := fetched st @ [url]\<rparr>
               in
                 bind_err (raise_in st1 (fst res)) (\<lambda>props.
                   if props = JNull then Inr st1
                   else
                     bind_err (raise_in st1 (py_contains ''oasDefinition'' props)) (\<lambda>has.
                       if \<not> has then Inr st1
                       else
                         bind_err (raise_in st1 (py_getitem props ''oasDefinition'')) (\<lambda>od.
                           if \<not> truthy od then Inr st1
                           else
                             bind_err (raise_in st1 (merge_oas_definitions (oas_definition st1) od))
                               (\<lambda>merged. Inr (st1\<lparr>oas_definition := merged\<rparr>))))))
          | _ \<Rightarrow> Inl (TypeError, st)))))"

definition crawl_ref ::
  "env \<Rightarrow> string \<Rightarrow> json list \<Rightarrow> crawl_state \<Rightarrow> json \<Rightarrow> (error \<times> crawl_state) + crawl_state" where
  "crawl_ref env url_prefix non_reference_pages st ref =
     bind_err (raise_in st (py_getitem ref ''pages'')) (\<lambda>pages.
     bind_err (raise_in st (py_iter pages)) (\<lambda>ps.
     fold_err (crawl_page env url_prefix non_reference_pages) ps st))"

text \<open>Lines 219 to 224: the two bookkeeping keys are deleted and the tree is written out.\<close>

definition finalize :: "env \<Rightarrow> crawl_state \<Rightarrow> crawl_state" where
  "finalize env st =
     (let final = AList.delete ''_id'' (AList.delete ''x-readme-fauxas'' (oas_definition st))
      in st\<lparr>oas_definition := final,
            files := (files st)(''out/oas_definition.json'' \<mapsto> env_dumps env (JObj final))\<rparr>)"

definition main :: "env \<Rightarrow> string \<Rightarrow> filesystem \<Rightarrow> (error \<times> crawl_state) + crawl_state" where
  "main env start_url fs =
     (let res = fetch_ssr_props env start_url fs;
          st0 = \<lparr>files = snd res, oas_definition = [], fetched = []\<rparr>
      in
        bind_err (raise_in st0 (fst res)) (\<lambda>start_props.
        bind_err (raise_in st0 (py_getitem start_props ''sidebars'')) (\<lambda>sidebars.
        bind_err (raise_in st0 (py_getitem sidebars ''refs'')) (\<lambda>refs.
        bind_err (raise_in st0 (py_getitem sidebars ''docs'')) (\<lambda>docs.
        bind_err (raise_in st0 (collect_non_reference docs)) (\<lambda>non_reference_pages.
        bind_err (raise_in st0 (py_getitem start_props ''oasDefinition'')) (\<lambda>od.
        bind_err (raise_in st0 (seed_oas od)) (\<lambda>seed.
        bind_err (raise_in st0 (py_iter refs)) (\<lambda>ref_list.
        bind_err (fold_err (crawl_ref env (url_prefix_of start_url) non_reference_pages) ref_list
                    (st0\<lparr>oas_definition := seed\<rparr>)) (\<lambda>st.
        Inr (finalize env st)))))))))))"

section \<open>Shapes of trees and fragments\<close>

text \<open>A tree has both sections when \<^verbatim>\<open>paths\<close> and \<^verbatim>\<open>components\<close> are keys of it and both
  hold dictionaries.\<close>

definition obj_at :: "dict \<Rightarrow> string \<Rightarrow> bool" where
  "obj_at t k = (case map_of t k of Some j \<Rightarrow> is_obj j | None \<Rightarrow> False)"

definition has_sections :: "dict \<Rightarrow> bool" where
  "has_sections t = (obj_at t ''paths'' \<and> obj_at t ''components'')"





text \<open>The state in which a run ends, normally or by an exception.\<close>

definition outcome_state :: "(error \<times> 's) + 's \<Rightarrow> 's" where
  "outcome_state r = (case r of Inl (e, st) \<Rightarrow> st | Inr st \<Rightarrow> st)"

text \<open>The URLs the crawl loop may pass to \<^verbatim>\<open>fetch_ssr_props\<close>: the prefix followed by a slug
  that is not a member of the set of non-reference slugs.\<close>

definition crawlable :: "string \<Rightarrow> json list \<Rightarrow> string set" where
  "crawlable url_prefix non_reference_pages =
     {url_prefix @ s | s. \<not> list_ex (py_eq (JStr s)) non_reference_pages}"

section \<open>Bookkeeping for the merge proofs\<close>





section \<open>A small documentation site\<close>

text \<open>
  A concrete site on which the model is run. Its start page lists three pages in one
  reference group, \<^verbatim>\<open>intro\<close>, \<^verbatim>\<open>pets\<close> and \<^verbatim>\<open>orders\<close>, and marks \<^verbatim>\<open>intro\<close> as not a reference
  page. The digest is replaced by the identity, documents are named by one letter and
  decoded by a table, and the cache and the HTTP responses are given per run. Two more
  documents are a payload without \<^verbatim>\<open>oasDefinition\<close> and one whose \<^verbatim>\<open>oasDefinition\<close> is empty.
\<close>

definition demo_start_props :: json where
  "demo_start_props =
     JObj [
       (''sidebars'', JObj [
          (''refs'', JArr [JObj [(''pages'', JArr [
             JObj [(''slug'', JStr ''intro''), (''title'', JStr ''Intro'')],
             JObj [(''slug'', JStr ''pets''), (''title'', JStr ''Pets'')],
             JObj [(''slug'', JStr ''orders''), (''title'', JStr ''Orders'')]])]]),
          (''docs'', JArr [JObj [(''pages'', JArr [
             JObj [(''slug'', JStr ''intro''), (''isReference'', JBool False)],
             JObj [(''slug'', JStr ''pets''), (''isReference'', JBool True)]])]])]),
       (''oasDefinition'', JObj [
          (''openapi'', JStr ''3.0.0''),
          (''_id'', JStr ''s0''),
          (''x-readme-fauxas'', JBool True),
          (''paths'', JObj [(''/start'', JObj [(''get'', JObj [(''summary'', JStr ''start'')])])])])]"

definition demo_pets_props :: json where
  "demo_pets_props =
     JObj [(''oasDefinition'', JObj [
        (''_id'', JStr ''s1''),
        (''x-readme-fauxas'', JBool True),
        (''paths'', JObj [(''/x'', JObj [(''get'', JObj [(''summary'', JStr ''old'')])])]),
        (''components'', JObj [(''schemas'', JObj [(''Pet'', JObj [(''type'', JStr ''object'')])])])])]"

definition demo_orders_props :: json where
  "demo_orders_props =
     JObj [(''oasDefinition'', JObj [
        (''_id'', JStr ''s2''),
        (''x-readme-fauxas'', JBool True),
        (''paths'', JObj [(''/x'', JObj [(''get'', JObj [(''summary'', JStr ''new'')]),
                                         (''post'', JObj [])])])])]"

text \<open>A start page that lists no reference page.\<close>

definition demo_single_props :: json where
  "demo_single_props =
     JObj [
       (''sidebars'', JObj [(''refs'', JArr []), (''docs'', JArr [])]),
       (''oasDefinition'', JObj [
          (''openapi'', JStr ''3.0.0''),
          (''paths'', JObj [(''/start'', JObj [(''get'', JObj [(''summary'', JStr ''start'')])])]),
          (''components'', JObj [(''schemas'', JObj [(''Pet'', JObj [])])])])]"

definition demo_env :: "(string \<times> nat \<times> string) list \<Rightarrow> (string \<times> string) list \<Rightarrow> env" where
  \<open>demo_env responses attributes =
     \<lparr>env_sha256 = (\<lambda>url. url),
      env_get = (\<lambda>url. case map_of responses url of None \<Rightarrow> Inl RequestError | Some r \<Rightarrow> Inr r),
      env_soup = (\<lambda>html. case map_of attributes html of None \<Rightarrow> None | Some a \<Rightarrow> Some (Some a)),
      env_loads = table_loads [(''S'', Inr demo_start_props), (''P'', Inr demo_pets_props),
                               (''O'', Inr demo_orders_props), (''E'', Inr demo_single_props),
                               (''N'', Inr (JObj [(''title'', JStr ''Changelog'')])),
                               (''Z'', Inr (JObj [(''oasDefinition'', JObj [])])),
                               (''{"a":1}'', Inr (JObj [(''a'', JInt 1)]))],
      env_dumps = (\<lambda>j. [])\<rparr>\<close>

definition demo_cache :: "(string \<times> string) list \<Rightarrow> filesystem" where
  "demo_cache cached =
     map_of (map (\<lambda>uc. (''out/cache/ssr_props_'' @ fst uc @ ''.json'', snd uc)) cached)"

section \<open>Properties of the recovery parser\<close>

lemma scan_pairs_truncated:
  \<open>scan_pairs ''{"a":"1","b":"2","c":"tru'' = [''"a":"1"'', ''"b":"2"'', ''"c":"tru'']\<close>
  by (simp add: scan_pairs_def scan_finish_def scan_char_def scan_init_def strip_braces_def
      strip_def isspace_def dquote_def backslash_def)

lemma scan_pairs_nested:
  \<open>scan_pairs ''{"a":[1,2,"x,y"],"b":2}'' = [''"a":[1,2,"x,y"]'', ''"b":2'']\<close>
  by (simp add: scan_pairs_def scan_finish_def scan_char_def scan_init_def strip_braces_def
      strip_def isspace_def dquote_def backslash_def)

lemma py_update_obj: "py_update d (JObj new) = Inr (dict_update d new)"
  by (simp add: py_update_def)

lemma parse_pair_total:
  assumes "\<forall>p e. json_loads (''{'' @ p @ ''}'') = Inl e \<longrightarrow> e = JSONDecodeError"
    and "\<forall>p v. json_loads (''{'' @ p @ ''}'') = Inr v \<longrightarrow> is_obj v"
  shows "\<exists>r. parse_pair json_loads result pair = Inr r"
proof (cases "json_loads (''{'' @ pair @ ''}'')")
  case (Inl e)
  with assms(1) have "e = JSONDecodeError" by blast
  with Inl show ?thesis by (simp add: parse_pair_def)
next
  case (Inr v)
  with assms(2) have "is_obj v" by blast
  then obtain d where "v = JObj d" by (cases v) (simp_all add: is_obj_def)
  with Inr show ?thesis by (simp add: parse_pair_def py_update_obj)
qed

lemma parse_pairs_total:
  assumes "\<forall>p e. json_loads (''{'' @ p @ ''}'') = Inl e \<longrightarrow> e = JSONDecodeError"
    and "\<forall>p v. json_loads (''{'' @ p @ ''}'') = Inr v \<longrightarrow> is_obj v"
  shows "\<exists>r. parse_pairs json_loads result ps = Inr r"
proof (induction ps arbitrary: result)
  case Nil
  show ?case by simp
next
  case (Cons pair ps)
  from parse_pair_total [OF assms] obtain r where "parse_pair json_loads result pair = Inr r"
    by blast
  with Cons.IH [of r] show ?case by simp
qed

text \<open>
  Claim C3. For the truncated payload \<^verbatim>\<open>{"a":"1","b":"2","c":"tru\<close> the recovery parser returns
  exactly the mapping of \<^verbatim>\<open>a\<close> to \<^verbatim>\<open>"1"\<close> and \<^verbatim>\<open>b\<close> to \<^verbatim>\<open>"2"\<close>: the scanner yields three
  candidate entries, the decoder rejects the unterminated third one, and that entry is
  dropped without an error for the parse as a whole. The decoder is the library's; its
  behaviour on the three wrapped candidates is stated as the hypotheses.
\<close>

theorem parse_truncated_json_truncation:
  assumes \<open>json_loads ''{"a":"1"}'' = Inr (JObj [(''a'', JStr ''1'')])\<close>
    and \<open>json_loads ''{"b":"2"}'' = Inr (JObj [(''b'', JStr ''2'')])\<close>
    and \<open>json_loads ''{"c":"tru}'' = Inl JSONDecodeError\<close>
  shows \<open>parse_truncated_json json_loads ''{"a":"1","b":"2","c":"tru''
           = Inr [(''a'', JStr ''1''), (''b'', JStr ''2'')]\<close>
  using assms
  by (simp add: parse_truncated_json_def scan_pairs_truncated parse_pair_def py_update_obj
      dict_update_def)

theorem parse_truncated_json_truncation_witness:
  \<open>parse_truncated_json
     (table_loads [(''{"a":"1"}'', Inr (JObj [(''a'', JStr ''1'')])),
                   (''{"b":"2"}'', Inr (JObj [(''b'', JStr ''2'')]))])
     ''{"a":"1","b":"2","c":"tru''
   = Inr [(''a'', JStr ''1''), (''b'', JStr ''2'')]\<close>
  using parse_truncated_json_truncation
    [of \<open>table_loads [(''{"a":"1"}'', Inr (JObj [(''a'', JStr ''1'')])),
                       (''{"b":"2"}'', Inr (JObj [(''b'', JStr ''2'')]))]\<close>]
  by (simp add: table_loads_def)

text \<open>
  Claim C7. In the scanner's pass a character closes the current entry (the entry under
  construction becomes empty again, and only then can the list of entries grow) exactly when
  it is a comma read outside a quoted string, not escaped, with both depth counters at zero.
  For the input \<^verbatim>\<open>{"a":[1,2,"x,y"],"b":2}\<close> the scanner produces exactly two entries: the
  commas inside the array and inside the string split nothing.
\<close>

theorem scan_separator_boundary:
  \<open>scan_pairs ''{"a":[1,2,"x,y"],"b":2}'' = [''"a":[1,2,"x,y"]'', ''"b":2'']
   \<and> length (scan_pairs ''{"a":[1,2,"x,y"],"b":2}'') = 2
   \<and> (current_pair (scan_char st c) = []
        \<longleftrightarrow> c = CHR '','' \<and> \<not> escape_next st \<and> \<not> in_string st
            \<and> brace_count st = 0 \<and> bracket_count st = 0)
   \<and> (pairs (scan_char st c) \<noteq> pairs st
        \<longrightarrow> c = CHR '','' \<and> \<not> escape_next st \<and> \<not> in_string st
            \<and> brace_count st = 0 \<and> bracket_count st = 0)\<close>
proof -
  have general: \<open>current_pair (scan_char st c) = []
        \<longleftrightarrow> c = CHR '','' \<and> \<not> escape_next st \<and> \<not> in_string st
            \<and> brace_count st = 0 \<and> bracket_count st = 0\<close>
    by (auto simp add: scan_char_def Let_def dquote_def backslash_def)
  have grow: \<open>pairs (scan_char st c) \<noteq> pairs st
        \<longrightarrow> c = CHR '','' \<and> \<not> escape_next st \<and> \<not> in_string st
            \<and> brace_count st = 0 \<and> bracket_count st = 0\<close>
    by (auto simp add: scan_char_def Let_def dquote_def backslash_def split: if_splits)
  show ?thesis
    using general grow by (simp add: scan_pairs_nested)
qed

theorem scan_separator_boundary_witness:
  \<open>pairs (scan_char (scan_init\<lparr>current_pair := ''"b":2''\<rparr>) (CHR '','')) = [''"b":2'']
   \<and> pairs (scan_char (scan_init\<lparr>current_pair := ''"b":2''\<rparr>) (CHR '','')) \<noteq> pairs scan_init
   \<and> current_pair (scan_char (scan_init\<lparr>current_pair := ''"b":2''\<rparr>) (CHR '','')) = []
   \<and> \<not> in_string (scan_init\<lparr>current_pair := ''"b":2''\<rparr>)
   \<and> brace_count (scan_init\<lparr>current_pair := ''"b":2''\<rparr>) = 0\<close>
  using scan_separator_boundary [of \<open>scan_init\<lparr>current_pair := ''"b":2''\<rparr>\<close> \<open>CHR '',''\<close>]
  by (simp add: scan_char_def scan_init_def strip_def isspace_def dquote_def backslash_def)

lemma strip_id:
  assumes "s \<noteq> []" and "\<not> isspace (hd s)" and "\<not> isspace (last s)"
  shows "strip s = s"
proof -
  from assms(1,2) have "dropWhile isspace s = s"
    by (simp add: dropWhile_eq_self_iff)
  moreover from assms(1,3) have "dropWhile isspace (rev s) = rev s"
    by (simp add: dropWhile_eq_self_iff hd_rev)
  ultimately show ?thesis by (simp add: strip_def)
qed

lemma scan_digit:
  assumes "\<not> escape_next st" and "\<not> in_string st"
  shows "scan_char st (CHR ''1'') = st\<lparr>current_pair := current_pair st @ [CHR ''1'']\<rparr>"
  using assms by (simp add: scan_char_def dquote_def backslash_def)

lemma scan_digits:
  assumes "\<not> escape_next st" and "\<not> in_string st"
  shows "fold (\<lambda>c st. scan_char st c) (replicate n (CHR ''1'')) st
           = st\<lparr>current_pair := current_pair st @ replicate n (CHR ''1'')\<rparr>"
  using assms
proof (induction n arbitrary: st)
  case 0
  show ?case by simp
next
  case (Suc n)
  have "fold (\<lambda>c st. scan_char st c) (replicate (Suc n) (CHR ''1'')) st
          = fold (\<lambda>c st. scan_char st c) (replicate n (CHR ''1''))
              (st\<lparr>current_pair := current_pair st @ [CHR ''1'']\<rparr>)"
    by (simp add: scan_digit Suc.prems)
  also have "\<dots> = st\<lparr>current_pair := current_pair st @ [CHR ''1''] @ replicate n (CHR ''1'')\<rparr>"
    by (subst Suc.IH) (simp_all add: Suc.prems)
  finally show ?case by simp
qed

lemma scan_pairs_long_integer:
  \<open>scan_pairs (''{"a":'' @ replicate n (CHR ''1'') @ ''}'') = [''"a":'' @ replicate n (CHR ''1'')]\<close>
proof -
  define A where "A = [dquote] @ ''a'' @ [dquote] @ '':''"
  define R where "R = replicate n (CHR ''1'')"
  have A_ends: "A \<noteq> []" "hd A = dquote" "last A = CHR '':''" "CHR '':'' \<in> set A"
    by (simp_all add: A_def)
  have R_last: "R \<noteq> [] \<Longrightarrow> last R = CHR ''1''"
    by (simp add: R_def)
  have not_space: "\<not> isspace (CHR ''1'')" "\<not> isspace (CHR '':'')" "\<not> isspace (CHR ''}'')"
    "\<not> isspace (CHR ''{'')" "\<not> isspace dquote"
    by (simp_all add: isspace_def dquote_def)
  have "strip (''{'' @ A @ R @ ''}'') = ''{'' @ A @ R @ ''}''"
    by (rule strip_id) (simp_all add: not_space)
  then have braces: "strip_braces (''{'' @ A @ R @ ''}'') = A @ R"
    by (simp add: strip_braces_def Let_def butlast_append)
  have key: "fold (\<lambda>c st. scan_char st c) A scan_init = scan_init\<lparr>current_pair := A\<rparr>"
    by (simp add: A_def scan_char_def scan_init_def dquote_def backslash_def)
  have "fold (\<lambda>c st. scan_char st c) (A @ R) scan_init
          = fold (\<lambda>c st. scan_char st c) R (scan_init\<lparr>current_pair := A\<rparr>)"
    by (simp add: key)
  also have "\<dots> = scan_init\<lparr>current_pair := A @ R\<rparr>"
    unfolding R_def by (subst scan_digits) (simp_all add: scan_init_def)
  finally have scanned: "fold (\<lambda>c st. scan_char st c) (A @ R) scan_init
          = scan_init\<lparr>current_pair := A @ R\<rparr>" .
  have "strip (A @ R) = A @ R"
  proof (rule strip_id)
    show "A @ R \<noteq> []" using A_ends by simp
    show "\<not> isspace (hd (A @ R))" using A_ends not_space by simp
    show "\<not> isspace (last (A @ R))" using A_ends R_last not_space by (cases "R = []") simp_all
  qed
  with scanned A_ends have "scan_finish (fold (\<lambda>c st. scan_char st c) (A @ R) scan_init) = [A @ R]"
    by (simp add: scan_finish_def scan_init_def)
  with braces have "scan_pairs (''{'' @ A @ R @ ''}'') = [A @ R]"
    by (simp add: scan_pairs_def)
  then show ?thesis
    by (simp add: A_def R_def dquote_def)
qed

lemma long_integer_raises:
  \<open>parse_truncated_json
      (table_loads [(''{"a":'' @ replicate n (CHR ''1'') @ ''}'', Inl ValueError)])
      (''{"a":'' @ replicate n (CHR ''1'') @ ''}'')
    = Inl ValueError\<close>
  unfolding parse_truncated_json_def scan_pairs_long_integer
  by (simp add: parse_pair_def table_loads_def)

text \<open>
  Claim C10, as stated, fails. The payload \<^verbatim>\<open>{"a":1...1}\<close> with an integer literal of 4301
  digits scans to one complete candidate entry; on the wrapped entry \<^verbatim>\<open>json.loads\<close> raises a
  plain \<^verbatim>\<open>ValueError\<close> (the integer exceeds the interpreter's limit of 4300 digits for the
  conversion from a string), which the handler of line 88 does not catch: the parser raises.
\<close>

theorem parse_truncated_json_raises_counterexample:
  \<open>parse_truncated_json
      (table_loads [(''{"a":'' @ replicate 4301 (CHR ''1'') @ ''}'', Inl ValueError)])
      (''{"a":'' @ replicate 4301 (CHR ''1'') @ ''}'')
    = Inl ValueError\<close>
  by (rule long_integer_raises)

lemma parse_pairs_raises:
  assumes "\<forall>p v. json_loads (''{'' @ p @ ''}'') = Inr v \<longrightarrow> is_obj v"
    and "parse_pairs json_loads result ps = Inl e"
  shows "e \<noteq> JSONDecodeError \<and> (\<exists>pair \<in> set ps. json_loads (''{'' @ pair @ ''}'') = Inl e)"
  using assms(2)
proof (induction ps arbitrary: result)
  case Nil
  then show ?case by simp
next
  case (Cons pair ps)
  show ?case
  proof (cases "json_loads (''{'' @ pair @ ''}'')")
    case (Inl err)
    show ?thesis
    proof (cases "err = JSONDecodeError")
      case True
      with Inl Cons.prems have "parse_pairs json_loads result ps = Inl e"
        by (simp add: parse_pair_def)
      from Cons.IH [OF this] show ?thesis by simp
    next
      case False
      with Inl Cons.prems have "e = err" by (simp add: parse_pair_def)
      with Inl False show ?thesis by simp
    qed
  next
    case (Inr v)
    with assms(1) have "is_obj v" by blast
    then obtain d where "v = JObj d" by (cases v) (simp_all add: is_obj_def)
    with Inr Cons.prems have "parse_pairs json_loads (dict_update result d) ps = Inl e"
      by (simp add: parse_pair_def py_update_obj)
    from Cons.IH [OF this] show ?thesis by simp
  qed
qed

text \<open>
  Claim C10, amended. The recovery parser is a total function of the input text (the scan is
  a fold over the characters, the parse a recursion over the candidate entries). When the
  decoder fails on wrapped entries with the decode error only (and returns a dictionary for
  a document that opens with a brace, as \<^verbatim>\<open>json.loads\<close> does), the parser returns a mapping
  for every input text. A candidate on which the decoder raises the decode error is skipped
  and the parse goes on with the next one; any other exception of the decoder on a candidate
  ends the parse with that exception; and an exception that leaves the parser is never the
  decode error: it is one the decoder raised on a candidate of the scan.
\<close>

theorem parse_truncated_json_guarded:
  "((\<forall>p e. json_loads (''{'' @ p @ ''}'') = Inl e \<longrightarrow> e = JSONDecodeError)
      \<and> (\<forall>p v. json_loads (''{'' @ p @ ''}'') = Inr v \<longrightarrow> is_obj v)
     \<longrightarrow> (\<exists>result. parse_truncated_json json_loads json_str = Inr result))
   \<and> (json_loads (''{'' @ pair @ ''}'') = Inl JSONDecodeError
     \<longrightarrow> parse_pairs json_loads result (pair # ps) = parse_pairs json_loads result ps)
   \<and> (json_loads (''{'' @ pair @ ''}'') = Inl e \<and> e \<noteq> JSONDecodeError
     \<longrightarrow> parse_pairs json_loads result (pair # ps) = Inl e)
   \<and> ((\<forall>p v. json_loads (''{'' @ p @ ''}'') = Inr v \<longrightarrow> is_obj v)
      \<and> parse_truncated_json json_loads json_str = Inl e
     \<longrightarrow> e \<noteq> JSONDecodeError
         \<and> (\<exists>pair \<in> set (scan_pairs json_str). json_loads (''{'' @ pair @ ''}'') = Inl e))"
proof (intro conjI impI)
  assume "(\<forall>p e. json_loads (''{'' @ p @ ''}'') = Inl e \<longrightarrow> e = JSONDecodeError)
      \<and> (\<forall>p v. json_loads (''{'' @ p @ ''}'') = Inr v \<longrightarrow> is_obj v)"
  then show "\<exists>result. parse_truncated_json json_loads json_str = Inr result"
    unfolding parse_truncated_json_def by (auto intro: parse_pairs_total)
next
  assume "json_loads (''{'' @ pair @ ''}'') = Inl JSONDecodeError"
  then show "parse_pairs json_loads result (pair # ps) = parse_pairs json_loads result ps"
    by (simp add: parse_pair_def)
next
  assume "json_loads (''{'' @ pair @ ''}'') = Inl e \<and> e \<noteq> JSONDecodeError"
  then show "parse_pairs json_loads result (pair # ps) = Inl e"
    by (simp add: parse_pair_def)
next
  assume h: "(\<forall>p v. json_loads (''{'' @ p @ ''}'') = Inr v \<longrightarrow> is_obj v)
      \<and> parse_truncated_json json_loads json_str = Inl e"
  then have a: "\<forall>p v. json_loads (''{'' @ p @ ''}'') = Inr v \<longrightarrow> is_obj v"
    and b: "parse_pairs json_loads [] (scan_pairs json_str) = Inl e"
    unfolding parse_truncated_json_def by blast+
  have "e \<noteq> JSONDecodeError
         \<and> (\<exists>pair \<in> set (scan_pairs json_str). json_loads (''{'' @ pair @ ''}'') = Inl e)"
    by (rule parse_pairs_raises [OF a b])
  then show "e \<noteq> JSONDecodeError"
    and "\<exists>pair \<in> set (scan_pairs json_str). json_loads (''{'' @ pair @ ''}'') = Inl e"
    by simp_all
qed

theorem parse_truncated_json_guarded_witness:
  \<open>(\<exists>result. parse_truncated_json (table_loads [(''{"a":"1"}'', Inr (JObj [(''a'', JStr ''1'')]))])
          ''{"a":"1","c":"tru'' = Inr result)
   \<and> parse_pairs (table_loads [(''{"a":"1"}'', Inr (JObj [(''a'', JStr ''1'')]))]) []
        [''"c":"tru'', ''"a":"1"'']
      = parse_pairs (table_loads [(''{"a":"1"}'', Inr (JObj [(''a'', JStr ''1'')]))]) [] [''"a":"1"'']
   \<and> parse_pairs (table_loads [(''{"a":'' @ replicate 4301 (CHR ''1'') @ ''}'', Inl ValueError)]) []
        [''"a":'' @ replicate 4301 (CHR ''1''), ''"b":2'']
      = Inl ValueError
   \<and> (\<exists>pair \<in> set (scan_pairs (''{"a":'' @ replicate 4301 (CHR ''1'') @ ''}'')).
         table_loads [(''{"a":'' @ replicate 4301 (CHR ''1'') @ ''}'', Inl ValueError)]
           (''{'' @ pair @ ''}'') = Inl ValueError)\<close>
proof -
  let ?small = \<open>table_loads [(''{"a":"1"}'', Inr (JObj [(''a'', JStr ''1'')]))]\<close>
  let ?long = \<open>table_loads [(''{"a":'' @ replicate 4301 (CHR ''1'') @ ''}'', Inl ValueError)]\<close>
  have h: \<open>(\<forall>p e. ?small (''{'' @ p @ ''}'') = Inl e \<longrightarrow> e = JSONDecodeError)
         \<and> (\<forall>p v. ?small (''{'' @ p @ ''}'') = Inr v \<longrightarrow> is_obj v)\<close>
    by (auto simp add: table_loads_def is_obj_def split: if_splits)
  have n: \<open>?small (''{'' @ ''"c":"tru'' @ ''}'') = Inl JSONDecodeError\<close>
    by (simp add: table_loads_def)
  have long_rule: \<open>table_loads [(''{"a":'' @ replicate k (CHR ''1'') @ ''}'', Inl ValueError)]
          (''{'' @ (''"a":'' @ replicate k (CHR ''1'')) @ ''}'') = Inl ValueError\<close> for k
    by (simp add: table_loads_def)
  have objs: \<open>\<forall>p v. table_loads [(''{"a":'' @ replicate k (CHR ''1'') @ ''}'', Inl ValueError)]
          (''{'' @ p @ ''}'') = Inr v \<longrightarrow> is_obj v\<close> for k
    by (simp add: table_loads_def)
  note T = parse_truncated_json_guarded
  have c1: \<open>\<exists>result. parse_truncated_json ?small ''{"a":"1","c":"tru'' = Inr result\<close>
    using T [where json_loads = ?small and json_str = \<open>''{"a":"1","c":"tru''\<close>, THEN conjunct1] h
    by blast
  have c2: \<open>parse_pairs ?small [] [''"c":"tru'', ''"a":"1"''] = parse_pairs ?small [] [''"a":"1"'']\<close>
    using T [where json_loads = ?small and pair = \<open>''"c":"tru''\<close> and result = "[]"
        and ps = \<open>[''"a":"1"'']\<close>, THEN conjunct2, THEN conjunct1] n
    by blast
  have c3: \<open>parse_pairs ?long [] [''"a":'' @ replicate 4301 (CHR ''1''), ''"b":2''] = Inl ValueError\<close>
    using T [where json_loads = ?long and pair = \<open>''"a":'' @ replicate 4301 (CHR ''1'')\<close>
        and result = "[]" and ps = \<open>[''"b":2'']\<close> and e = ValueError,
        THEN conjunct2, THEN conjunct2, THEN conjunct1] long_rule [of 4301]
    by blast
  have c4: \<open>\<exists>pair \<in> set (scan_pairs (''{"a":'' @ replicate 4301 (CHR ''1'') @ ''}'')).
         ?long (''{'' @ pair @ ''}'') = Inl ValueError\<close>
    using T [where json_loads = ?long and json_str = \<open>''{"a":'' @ replicate 4301 (CHR ''1'') @ ''}''\<close>
        and e = ValueError, THEN conjunct2, THEN conjunct2, THEN conjunct2]
      objs [of 4301] long_integer_raises [of 4301]
    by blast
  from c1 c2 c3 c4 show ?thesis by blast
qed

section \<open>Properties of the merger\<close>

lemma bind_err_Inl [simp]: "bind_err (Inl e) f = Inl e"
  by (simp add: bind_err_def)

lemma bind_err_Inr [simp]: "bind_err (Inr x) f = f x"
  by (simp add: bind_err_def)

lemma bind_err_eq_Inr: "bind_err m f = Inr y \<longleftrightarrow> (\<exists>x. m = Inr x \<and> f x = Inr y)"
  by (cases m) simp_all

lemma fold_err_invariant:
  assumes "fold_err f xs s = Inr s'" and "P s"
    and "\<And>a x b. P a \<Longrightarrow> x \<in> set xs \<Longrightarrow> f a x = Inr b \<Longrightarrow> P b"
  shows "P s'"
  using assms
proof (induction xs arbitrary: s)
  case Nil
  then show ?case by simp
next
  case (Cons x xs)
  from Cons.prems(1) obtain s1 where s1: "f s x = Inr s1" and rest: "fold_err f xs s1 = Inr s'"
    by (auto split: sum.splits)
  have "P s1" by (rule Cons.prems(3) [OF Cons.prems(2) _ s1]) simp
  with rest show ?case by (rule Cons.IH) (auto intro: Cons.prems(3))
qed

lemma py_getitem_eq_Inr: "py_getitem j k = Inr v \<longleftrightarrow> (\<exists>d. j = JObj d \<and> map_of d k = Some v)"
  by (cases j) (auto split: option.splits)

lemma py_setitem_eq_Inr: "py_setitem j k v = Inr j' \<longleftrightarrow> (\<exists>d. j = JObj d \<and> j' = JObj (AList.update k v d))"
  by (cases j) auto

lemma py_items_eq_Inr: "py_items j = Inr xs \<longleftrightarrow> j = JObj xs"
  by (cases j) auto

lemma py_update_method_eq_Inr:
  "py_update_method j y = Inr j' \<longleftrightarrow> (\<exists>d d'. j = JObj d \<and> py_update d y = Inr d' \<and> j' = JObj d')"
  by (cases j) (auto simp add: bind_err_eq_Inr)

lemma obj_at_update: "obj_at (AList.update k v t) k' = (if k' = k then is_obj v else obj_at t k')"
  by (simp add: obj_at_def update_conv')

lemma merge_path_sections:
  assumes "merge_path merged item = Inr merged'" and "has_sections merged"
  shows "has_sections merged'"
  using assms
  by (auto simp add: merge_path_def Let_def bind_err_eq_Inr py_setitem_eq_Inr has_sections_def
      obj_at_update is_obj_def split: if_splits)

lemma merge_component_item_sections:
  assumes "merge_component_item section merged entry = Inr merged'" and "has_sections merged"
  shows "has_sections merged'"
  using assms
  by (auto simp add: merge_component_item_def Let_def bind_err_eq_Inr py_setitem_eq_Inr
      has_sections_def obj_at_update is_obj_def split: if_splits)

lemma merge_component_sections:
  assumes "merge_component ncomps merged section_key = Inr merged'" and "has_sections merged"
  shows "has_sections merged'"
proof (cases section_key)
  case (JStr sec)
  with assms(1) obtain mcomps present where
    rest: "(if \<not> present then
              bind_err (py_getitem ncomps sec) (\<lambda>nsection.
              bind_err (py_setitem mcomps sec nsection) (\<lambda>mcomps'.
              Inr (AList.update ''components'' mcomps' merged)))
            else
              bind_err (py_getitem ncomps sec) (\<lambda>nsection.
              bind_err (py_items nsection) (\<lambda>entries.
              fold_err (merge_component_item sec) entries merged))) = Inr merged'"
    by (auto simp add: merge_component_def bind_err_eq_Inr)
  show ?thesis
  proof (cases present)
    case False
    with rest assms(2) show ?thesis
      by (auto simp add: bind_err_eq_Inr py_setitem_eq_Inr has_sections_def obj_at_update is_obj_def)
  next
    case True
    with rest obtain entries
      where "fold_err (merge_component_item sec) entries merged = Inr merged'"
      by (auto simp add: bind_err_eq_Inr)
    then show ?thesis
      using assms(2) by (rule fold_err_invariant) (rule merge_component_item_sections)
  qed
qed (insert assms, simp_all add: merge_component_def)

lemma merge_oas_definitions_sections:
  assumes "merge_oas_definitions base new = Inr merged" and "has_sections base"
  shows "has_sections merged"
proof -
  from assms(1) obtain m1 where
    m1: "m1 = base \<or> (\<exists>items. fold_err merge_path items base = Inr m1)"
    and m2: "merged = m1 \<or> (\<exists>nc sections. fold_err (merge_component nc) sections m1 = Inr merged)"
    by (auto simp add: merge_oas_definitions_def Let_def bind_err_eq_Inr split: if_splits)
  from m1 have "has_sections m1"
    using assms(2) by (auto elim: fold_err_invariant intro: merge_path_sections)
  with m2 show ?thesis
    by (auto elim: fold_err_invariant intro: merge_component_sections)
qed

lemma seed_oas_sections: "seed_oas od = Inr t \<Longrightarrow> has_sections t"
  by (cases od) (auto simp add: seed_oas_def has_sections_def obj_at_update is_obj_def)

lemma map_of_dict_update_notin:
  "k \<notin> fst ` set new \<Longrightarrow> map_of (dict_update d new) k = map_of d k"
  unfolding dict_update_def
  by (induction new arbitrary: d) (auto simp add: update_conv')

lemma map_of_dict_update_in:
  "distinct (map fst new) \<Longrightarrow> (k, v) \<in> set new \<Longrightarrow> map_of (dict_update d new) k = Some v"
proof (induction new arbitrary: d)
  case Nil
  then show ?case by simp
next
  case (Cons x xs)
  have unfold: "dict_update d (x # xs) = dict_update (AList.update (fst x) (snd x) d) xs"
    by (simp add: dict_update_def)
  show ?case
  proof (cases "(k, v) = x")
    case True
    with Cons.prems have "k \<notin> fst ` set xs" by force
    then show ?thesis
      using True by (auto simp add: unfold map_of_dict_update_notin update_conv')
  next
    case False
    with Cons.prems have "(k, v) \<in> set xs" and "distinct (map fst xs)" by auto
    then show ?thesis
      by (simp add: unfold Cons.IH)
  qed
qed




lemma raise_in_eq_Inr: "raise_in st m = Inr x \<longleftrightarrow> m = Inr x"
  by (cases m) (simp_all add: raise_in_def)

lemma crawl_page_sections:
  assumes "crawl_page env url_prefix nonref st page = Inr st'"
    and "has_sections (oas_definition st)"
  shows "has_sections (oas_definition st')"
  using assms
  by (auto simp add: crawl_page_def Let_def bind_err_eq_Inr raise_in_eq_Inr
      split: if_splits json.splits dest: merge_oas_definitions_sections)

lemma crawl_ref_sections:
  assumes "crawl_ref env url_prefix nonref st ref = Inr st'"
    and "has_sections (oas_definition st)"
  shows "has_sections (oas_definition st')"
proof -
  from assms(1) obtain ps where "fold_err (crawl_page env url_prefix nonref) ps st = Inr st'"
    by (auto simp add: crawl_ref_def bind_err_eq_Inr)
  then show ?thesis
    using assms(2)
    by (rule fold_err_invariant [where P = "\<lambda>s. has_sections (oas_definition s)"])
      (rule crawl_page_sections)
qed

lemma crawl_refs_sections:
  assumes "fold_err (crawl_ref env url_prefix nonref) refs st = Inr st'"
    and "has_sections (oas_definition st)"
  shows "has_sections (oas_definition st')"
  using assms
  by (rule fold_err_invariant [where P = "\<lambda>s. has_sections (oas_definition s)"])
    (rule crawl_ref_sections)

lemma obj_at_delete: "k' \<noteq> k \<Longrightarrow> obj_at (AList.delete k t) k' = obj_at t k'"
  by (simp add: obj_at_def)

lemma finalize_sections:
  "has_sections (oas_definition st) \<Longrightarrow> has_sections (oas_definition (finalize env st))"
  by (simp add: finalize_def Let_def has_sections_def obj_at_delete)

lemma main_sections:
  assumes "main env start_url fs = Inr final"
  shows "has_sections (oas_definition final)"
proof -
  from assms obtain od seed ref_list nonref st where
    seed: "seed_oas od = Inr seed"
    and crawl: "fold_err (crawl_ref env (url_prefix_of start_url) nonref) ref_list
         (\<lparr>files = snd (fetch_ssr_props env start_url fs), oas_definition = [], fetched = []\<rparr>
            \<lparr>oas_definition := seed\<rparr>) = Inr st"
    and final: "final = finalize env st"
    by (auto simp add: main_def Let_def bind_err_eq_Inr raise_in_eq_Inr)
  from seed have "has_sections seed" by (rule seed_oas_sections)
  with crawl have "has_sections (oas_definition st)"
    by (auto dest: crawl_refs_sections)
  then show ?thesis
    unfolding final by (rule finalize_sections)
qed

text \<open>
  Claim C8. The accumulating result always holds a \<^verbatim>\<open>paths\<close> section and a \<^verbatim>\<open>components\<close>
  section, both dictionaries: the seed built from the start page's fragment has them, every
  merge that returns keeps them, and so does every step of the crawl and the finished tree
  of a run of \<^verbatim>\<open>main\<close>.
\<close>

theorem specification_tree_invariant:
  "(seed_oas od = Inr seed \<longrightarrow> has_sections seed)
   \<and> (has_sections base \<and> merge_oas_definitions base new = Inr merged \<longrightarrow> has_sections merged)
   \<and> (has_sections (oas_definition st)
        \<and> fold_err (crawl_ref env url_prefix nonref) refs st = Inr st'
       \<longrightarrow> has_sections (oas_definition st'))
   \<and> (main env start_url fs = Inr final \<longrightarrow> has_sections (oas_definition final))"
  using seed_oas_sections merge_oas_definitions_sections crawl_refs_sections main_sections
  by blast



lemma lookup_eq_Inr [simp]:
  "((case m of None \<Rightarrow> Inl KeyError | Some v \<Rightarrow> Inr v) = Inr x) = (m = Some x)"
  by (cases m) simp_all

lemma merge_path_step:
  assumes "merge_path merged (p, methods) = Inr merged'"
  shows "\<exists>mp mp'. map_of merged ''paths'' = Some (JObj mp)
           \<and> merged' = AList.update ''paths'' (JObj mp') merged
           \<and> ((map_of mp p = None \<and> mp' = AList.update p methods mp)
              \<or> (\<exists>e e'. map_of mp p = Some (JObj e) \<and> py_update e methods = Inr e'
                    \<and> mp' = AList.update p (JObj e') mp))"
  using assms
  by (auto simp add: merge_path_def Let_def bind_err_eq_Inr py_getitem_eq_Inr py_setitem_eq_Inr
      py_update_method_eq_Inr split: if_splits)








lemma merge_component_item_step:
  assumes "merge_component_item sec a (name, item) = Inr b"
  shows "\<exists>mc ms ms'. map_of a ''components'' = Some (JObj mc) \<and> map_of mc sec = Some (JObj ms)
           \<and> b = AList.update ''components'' (JObj (AList.update sec (JObj ms') mc)) a
           \<and> ((map_of ms name = None \<and> ms' = AList.update name item ms)
              \<or> (\<exists>e e'. map_of ms name = Some (JObj e) \<and> py_update e item = Inr e'
                    \<and> ms' = AList.update name (JObj e') ms))"
  using assms
  by (auto simp add: merge_component_item_def Let_def bind_err_eq_Inr py_getitem_eq_Inr
      py_setitem_eq_Inr py_update_method_eq_Inr split: if_splits)


lemma merge_component_item_paths:
  assumes "merge_component_item sec a entry = Inr b"
  shows "map_of b ''paths'' = map_of a ''paths''"
proof -
  from merge_component_item_step [of sec a "fst entry" "snd entry" b] assms(1)
  obtain c where "b = AList.update ''components'' c a"
    by auto
  then show ?thesis
    by (simp add: update_conv')
qed





lemma has_sections_components:
  "has_sections t \<Longrightarrow> \<exists>mc. map_of t ''components'' = Some (JObj mc)"
  by (auto simp add: has_sections_def obj_at_def is_obj_def split: option.splits json.splits)

lemma merge_component_step:
  assumes "merge_component ncj a (JStr sec) = Inr b" and "has_sections a"
  shows "\<exists>mc. map_of a ''components'' = Some (JObj mc)
          \<and> ((map_of mc sec = None
               \<and> (\<exists>nsv. py_getitem ncj sec = Inr nsv
                     \<and> b = AList.update ''components'' (JObj (AList.update sec nsv mc)) a))
             \<or> (map_of mc sec \<noteq> None
               \<and> (\<exists>ns. py_getitem ncj sec = Inr (JObj ns)
                     \<and> fold_err (merge_component_item sec) ns a = Inr b)))"
proof -
  from has_sections_components [OF assms(2)] obtain mc
    where mc: "map_of a ''components'' = Some (JObj mc)" by blast
  with assms(1) show ?thesis
    by (auto simp add: merge_component_def bind_err_eq_Inr py_setitem_eq_Inr py_items_eq_Inr
        split: if_splits)
qed


lemma merge_component_paths:
  assumes "merge_component ncj a key = Inr b" and "has_sections a"
  shows "map_of b ''paths'' = map_of a ''paths''"
proof (cases key)
  case (JStr sec)
  from merge_component_step [OF assms(1) [unfolded JStr] assms(2)] obtain mc where
    alt: "(\<exists>nsv. b = AList.update ''components'' (JObj (AList.update sec nsv mc)) a)
           \<or> (\<exists>ns. fold_err (merge_component_item sec) ns a = Inr b)"
    by blast
  from alt show ?thesis
  proof
    assume "\<exists>nsv. b = AList.update ''components'' (JObj (AList.update sec nsv mc)) a"
    then show ?thesis by (auto simp add: update_conv')
  next
    assume "\<exists>ns. fold_err (merge_component_item sec) ns a = Inr b"
    then obtain ns where "fold_err (merge_component_item sec) ns a = Inr b" ..
    then show ?thesis
      by (rule fold_err_invariant [where P = "\<lambda>t. map_of t ''paths'' = map_of a ''paths''"])
        (simp_all add: merge_component_item_paths)
  qed
qed (insert assms, simp_all add: merge_component_def)






lemma merge_components_paths:
  assumes "fold_err (merge_component ncj) xs a = Inr b" and "has_sections a"
  shows "map_of b ''paths'' = map_of a ''paths''"
proof -
  from assms(1) have "has_sections b \<and> map_of b ''paths'' = map_of a ''paths''"
    by (rule fold_err_invariant) (auto simp add: assms(2) merge_component_paths
        dest: merge_component_sections)
  then show ?thesis by simp
qed


lemma merge_path_entry_other:
  assumes "merge_path a (p, m) = Inr b" and "p \<noteq> q" and "map_of a ''paths'' = Some (JObj ap)"
  shows "\<exists>bp. map_of b ''paths'' = Some (JObj bp) \<and> map_of bp q = map_of ap q"
  using merge_path_step [OF assms(1)] assms(2,3)
  by (auto simp add: update_conv')

lemma merge_paths_entry_other:
  assumes "fold_err merge_path xs a = Inr b" and "q \<notin> fst ` set xs"
    and "map_of a ''paths'' = Some (JObj ap)"
  shows "\<exists>bp. map_of b ''paths'' = Some (JObj bp) \<and> map_of bp q = map_of ap q"
  using assms(1)
proof (rule fold_err_invariant)
  show "\<exists>bp. map_of a ''paths'' = Some (JObj bp) \<and> map_of bp q = map_of ap q"
    using assms(3) by simp
next
  fix s x s'
  assume "\<exists>bp. map_of s ''paths'' = Some (JObj bp) \<and> map_of bp q = map_of ap q"
    and "x \<in> set xs" and "merge_path s x = Inr s'"
  with assms(2) show "\<exists>bp. map_of s' ''paths'' = Some (JObj bp) \<and> map_of bp q = map_of ap q"
    using merge_path_entry_other [of s "fst x" "snd x" s' q] by (cases x) force
qed

lemma merge_paths_entry:
  assumes "fold_err merge_path items a = Inr b" and "distinct (map fst items)"
    and "map_of a ''paths'' = Some (JObj ap)" and "map_of ap path = Some (JObj am)"
    and "map_of items path = Some (JObj nm)"
  shows "\<exists>bp. map_of b ''paths'' = Some (JObj bp)
           \<and> map_of bp path = Some (JObj (dict_update am nm))"
  using assms
proof (induction items arbitrary: a ap)
  case Nil
  then show ?case by simp
next
  case (Cons x xs)
  from Cons.prems(1) obtain s1 where s1: "merge_path a x = Inr s1"
    and rest: "fold_err merge_path xs s1 = Inr b"
    by (auto split: sum.splits)
  show ?case
  proof (cases "fst x = path")
    case True
    with Cons.prems(5) have x: "x = (path, JObj nm)" by (cases x) simp
    from merge_path_step [OF s1 [unfolded x]] Cons.prems(3,4)
    obtain p1 where p1: "map_of s1 ''paths'' = Some (JObj p1)"
      and "map_of p1 path = Some (JObj (dict_update am nm))"
      by (auto simp add: update_conv' py_update_obj)
    moreover from Cons.prems(2) True have "path \<notin> fst ` set xs" by auto
    from merge_paths_entry_other [OF rest this p1]
    have "\<exists>bp. map_of b ''paths'' = Some (JObj bp) \<and> map_of bp path = map_of p1 path" .
    ultimately show ?thesis by auto
  next
    case False
    with merge_path_entry_other [of a "fst x" "snd x" s1 path ap] s1 Cons.prems(3)
    obtain p1 where p1: "map_of s1 ''paths'' = Some (JObj p1)"
      and same: "map_of p1 path = map_of ap path"
      by (cases x) auto
    from False Cons.prems(5) have "map_of xs path = Some (JObj nm)" by (cases x) auto
    with Cons.IH [OF rest _ p1] same Cons.prems(2,4) show ?thesis by simp
  qed
qed

lemma map_of_dict_update_cases:
  assumes "distinct (map fst new)"
  shows "map_of (dict_update d new) k
           = (case map_of new k of Some v \<Rightarrow> Some v | None \<Rightarrow> map_of d k)"
proof (cases "map_of new k")
  case None
  then have "k \<notin> fst ` set new" by (simp add: map_of_eq_None_iff)
  with None show ?thesis by (simp add: map_of_dict_update_notin)
next
  case (Some v)
  then have "(k, v) \<in> set new" by (rule map_of_SomeD)
  with Some assms show ?thesis by (simp add: map_of_dict_update_in)
qed

text \<open>
  Claim C5. Merging is last-fragment-wins at method granularity: when a path is a key of the
  tree's and of the fragment's \<^verbatim>\<open>paths\<close>, the merged method map of that path holds, for every
  method of the fragment, the fragment's operation object (overwritten or added), and the
  tree's operation object for every other method. In particular, merging a fragment whose
  \<^verbatim>\<open>/x\<close> \<^verbatim>\<open>get\<close> has summary \<^verbatim>\<open>old\<close> and then one with summary \<^verbatim>\<open>new\<close> yields \<^verbatim>\<open>new\<close>.
\<close>

theorem merge_last_fragment_wins:
  "(has_sections base
      \<and> map_of base ''paths'' = Some (JObj bpaths)
      \<and> map_of bpaths path = Some (JObj bmethods)
      \<and> map_of new ''paths'' = Some (JObj npaths) \<and> distinct (map fst npaths)
      \<and> map_of npaths path = Some (JObj nmethods) \<and> distinct (map fst nmethods)
      \<and> merge_oas_definitions base (JObj new) = Inr merged
     \<longrightarrow> (\<exists>mpaths mmethods.
            map_of merged ''paths'' = Some (JObj mpaths)
          \<and> map_of mpaths path = Some (JObj mmethods)
          \<and> (\<forall>m. map_of mmethods m
                 = (case map_of nmethods m of Some operation \<Rightarrow> Some operation
                    | None \<Rightarrow> map_of bmethods m))))
   \<and> (\<exists>r1. merge_oas_definitions [(''paths'', JObj []), (''components'', JObj [])]
              (JObj [(''paths'', JObj [(''/x'', JObj [(''get'', JObj [(''summary'', JStr ''old'')])])])])
            = Inr r1
         \<and> merge_oas_definitions r1
              (JObj [(''paths'', JObj [(''/x'', JObj [(''get'', JObj [(''summary'', JStr ''new'')])])])])
            = Inr [(''paths'', JObj [(''/x'', JObj [(''get'', JObj [(''summary'', JStr ''new'')])])]),
                   (''components'', JObj [])])"
proof (intro conjI impI)
  assume h: "has_sections base
      \<and> map_of base ''paths'' = Some (JObj bpaths)
      \<and> map_of bpaths path = Some (JObj bmethods)
      \<and> map_of new ''paths'' = Some (JObj npaths) \<and> distinct (map fst npaths)
      \<and> map_of npaths path = Some (JObj nmethods) \<and> distinct (map fst nmethods)
      \<and> merge_oas_definitions base (JObj new) = Inr merged"
  then have "\<exists>m1. fold_err merge_path npaths base = Inr m1
      \<and> (merged = m1 \<or> (\<exists>nc xs. fold_err (merge_component nc) xs m1 = Inr merged))"
    by (auto simp add: merge_oas_definitions_def Let_def bind_err_eq_Inr split: if_splits)
  then obtain m1 where m1: "fold_err merge_path npaths base = Inr m1"
    and m2: "merged = m1 \<or> (\<exists>nc xs. fold_err (merge_component nc) xs m1 = Inr merged)"
    by blast
  from h m1 have "has_sections m1"
    by (auto elim: fold_err_invariant intro: merge_path_sections)
  with m2 have kept: "map_of merged ''paths'' = map_of m1 ''paths''"
    by (auto dest: merge_components_paths)
  from h merge_paths_entry [OF m1, of bpaths path bmethods nmethods]
  obtain bp where "map_of m1 ''paths'' = Some (JObj bp)"
    and "map_of bp path = Some (JObj (dict_update bmethods nmethods))"
    by auto
  with kept h show "\<exists>mpaths mmethods.
            map_of merged ''paths'' = Some (JObj mpaths)
          \<and> map_of mpaths path = Some (JObj mmethods)
          \<and> (\<forall>m. map_of mmethods m
                 = (case map_of nmethods m of Some operation \<Rightarrow> Some operation
                    | None \<Rightarrow> map_of bmethods m))"
    by (auto simp add: map_of_dict_update_cases)
next
  show "\<exists>r1. merge_oas_definitions [(''paths'', JObj []), (''components'', JObj [])]
              (JObj [(''paths'', JObj [(''/x'', JObj [(''get'', JObj [(''summary'', JStr ''old'')])])])])
            = Inr r1
         \<and> merge_oas_definitions r1
              (JObj [(''paths'', JObj [(''/x'', JObj [(''get'', JObj [(''summary'', JStr ''new'')])])])])
            = Inr [(''paths'', JObj [(''/x'', JObj [(''get'', JObj [(''summary'', JStr ''new'')])])]),
                   (''components'', JObj [])]"
    by (simp add: merge_oas_definitions_def merge_path_def py_update_def dict_update_def Let_def)
qed

lemmas run_defs = main_def fetch_ssr_props_def extract_props_def crawl_ref_def crawl_page_def
  collect_non_reference_def collect_doc_def collect_page_def set_add_def set_contains_def py_eq_def
  seed_oas_def url_prefix_of_def raise_in_def finalize_def merge_oas_definitions_def merge_path_def
  merge_component_def merge_component_item_def py_update_def dict_update_def outcome_state_def
  demo_env_def demo_cache_def table_loads_def demo_start_props_def demo_pets_props_def
  demo_orders_props_def demo_single_props_def str_find_def tag_needle_def attr_needle_def dquote_def Let_def

theorem specification_tree_invariant_witness:
  "\<exists>final. main (demo_env [] []) ''site''
             (demo_cache [(''site'', ''S''), (''site/pets'', ''P''), (''site/orders'', ''O'')])
           = Inr final
         \<and> has_sections (oas_definition final)"
proof -
  have "\<exists>final. main (demo_env [] []) ''site''
             (demo_cache [(''site'', ''S''), (''site/pets'', ''P''), (''site/orders'', ''O'')])
           = Inr final"
    by (simp add: run_defs)
  then obtain final where "main (demo_env [] []) ''site''
             (demo_cache [(''site'', ''S''), (''site/pets'', ''P''), (''site/orders'', ''O'')])
           = Inr final" ..
  with specification_tree_invariant [where env = "demo_env [] []" and start_url = "''site''"
      and fs = "demo_cache [(''site'', ''S''), (''site/pets'', ''P''), (''site/orders'', ''O'')]"
      and final = final]
  show ?thesis by blast
qed


theorem merge_last_fragment_wins_witness:
  "\<exists>merged mpaths mmethods.
      merge_oas_definitions
        [(''paths'', JObj [(''/x'', JObj [(''get'', JObj [(''summary'', JStr ''old'')]),
                                          (''put'', JObj [(''summary'', JStr ''kept'')])])]),
         (''components'', JObj [])]
        (JObj [(''paths'', JObj [(''/x'', JObj [(''get'', JObj [(''summary'', JStr ''new'')]),
                                                (''post'', JObj [(''summary'', JStr ''added'')])])])])
      = Inr merged
    \<and> map_of merged ''paths'' = Some (JObj mpaths)
    \<and> map_of mpaths ''/x'' = Some (JObj mmethods)
    \<and> map_of mmethods ''get'' = Some (JObj [(''summary'', JStr ''new'')])
    \<and> map_of mmethods ''put'' = Some (JObj [(''summary'', JStr ''kept'')])
    \<and> map_of mmethods ''post'' = Some (JObj [(''summary'', JStr ''added'')])"
proof -
  let ?bm = "[(''get'', JObj [(''summary'', JStr ''old'')]),
              (''put'', JObj [(''summary'', JStr ''kept'')])]"
  let ?nm = "[(''get'', JObj [(''summary'', JStr ''new'')]),
              (''post'', JObj [(''summary'', JStr ''added'')])]"
  let ?base = "[(''paths'', JObj [(''/x'', JObj ?bm)]), (''components'', JObj [])]"
  let ?new = "[(''paths'', JObj [(''/x'', JObj ?nm)])]"
  have run: "\<exists>merged. merge_oas_definitions ?base (JObj ?new) = Inr merged"
    by (simp add: merge_oas_definitions_def merge_path_def py_update_def dict_update_def Let_def)
  then obtain merged where merged: "merge_oas_definitions ?base (JObj ?new) = Inr merged" ..
  have sections: "has_sections ?base"
    by (simp add: has_sections_def obj_at_def is_obj_def)
  from merge_last_fragment_wins [of ?base "[(''/x'', JObj ?bm)]" "''/x''" ?bm ?new
      "[(''/x'', JObj ?nm)]" ?nm merged] sections merged
  obtain mpaths mmethods where "map_of merged ''paths'' = Some (JObj mpaths)"
    and "map_of mpaths ''/x'' = Some (JObj mmethods)"
    and all: "\<forall>m. map_of mmethods m
                 = (case map_of ?nm m of Some operation \<Rightarrow> Some operation
                    | None \<Rightarrow> map_of ?bm m)"
    by auto
  moreover from all have "map_of mmethods ''get'' = Some (JObj [(''summary'', JStr ''new'')])"
    and "map_of mmethods ''put'' = Some (JObj [(''summary'', JStr ''kept'')])"
    and "map_of mmethods ''post'' = Some (JObj [(''summary'', JStr ''added'')])"
    by simp_all
  ultimately show ?thesis using merged by blast
qed

section \<open>Properties of the crawl\<close>

lemma main_success:
  assumes "main env start_url fs = Inr final"
  shows "\<exists>st. final = finalize env st"
  using assms
  by (auto simp add: main_def Let_def bind_err_eq_Inr)

text \<open>
  Claim C9. After all pages are processed the finalisation deletes the keys
  \<^verbatim>\<open>x-readme-fauxas\<close> and \<^verbatim>\<open>_id\<close>: the tree of every finalised state, and so the finished tree
  of every run of \<^verbatim>\<open>main\<close> that returns, holds neither key, whatever the fragments carried,
  and it is this tree that is written to \<^verbatim>\<open>out/oas_definition.json\<close>.
\<close>

theorem bookkeeping_stripped:
  "map_of (oas_definition (finalize env st)) ''x-readme-fauxas'' = None
   \<and> map_of (oas_definition (finalize env st)) ''_id'' = None
   \<and> (main env start_url fs = Inr final \<longrightarrow>
        map_of (oas_definition final) ''x-readme-fauxas'' = None
        \<and> map_of (oas_definition final) ''_id'' = None
        \<and> files final ''out/oas_definition.json'' = Some (env_dumps env (JObj (oas_definition final))))"
proof -
  have strip: "map_of (oas_definition (finalize env' st')) ''x-readme-fauxas'' = None
     \<and> map_of (oas_definition (finalize env' st')) ''_id'' = None
     \<and> files (finalize env' st') ''out/oas_definition.json''
         = Some (env_dumps env' (JObj (oas_definition (finalize env' st'))))" for env' st'
    by (simp add: finalize_def Let_def delete_conv')
  have run: "map_of (oas_definition final) ''x-readme-fauxas'' = None
        \<and> map_of (oas_definition final) ''_id'' = None
        \<and> files final ''out/oas_definition.json'' = Some (env_dumps env (JObj (oas_definition final)))"
    if "main env start_url fs = Inr final"
  proof -
    from main_success [OF that] obtain st' where "final = finalize env st'" ..
    with strip [of env st'] show ?thesis by simp
  qed
  from strip [of env st] run show ?thesis by simp
qed

theorem bookkeeping_stripped_witness:
  "\<exists>final. main (demo_env [] []) ''site''
             (demo_cache [(''site'', ''S''), (''site/pets'', ''P''), (''site/orders'', ''O'')])
           = Inr final
         \<and> map_of (oas_definition final) ''x-readme-fauxas'' = None
         \<and> map_of (oas_definition final) ''_id'' = None
         \<and> map_of (oas_definition final) ''openapi'' = Some (JStr ''3.0.0'')"
proof -
  have "\<exists>final. main (demo_env [] []) ''site''
             (demo_cache [(''site'', ''S''), (''site/pets'', ''P''), (''site/orders'', ''O'')])
           = Inr final \<and> map_of (oas_definition final) ''openapi'' = Some (JStr ''3.0.0'')"
    by (simp add: run_defs)
  then obtain final where "main (demo_env [] []) ''site''
             (demo_cache [(''site'', ''S''), (''site/pets'', ''P''), (''site/orders'', ''O'')])
           = Inr final" and "map_of (oas_definition final) ''openapi'' = Some (JStr ''3.0.0'')"
    by blast
  with bookkeeping_stripped [where env = "demo_env [] []" and start_url = "''site''"
      and fs = "demo_cache [(''site'', ''S''), (''site/pets'', ''P''), (''site/orders'', ''O'')]"
      and final = final]
  show ?thesis by blast
qed

lemma py_eq_refl: "py_eq x x"
  by (cases x) (simp_all add: py_eq_def)

lemma set_add_member:
  "set_add ms x = Inr ms' \<Longrightarrow> list_ex (py_eq x) ms'"
  by (auto simp add: set_add_def py_eq_refl split: if_splits)

lemma set_add_mono:
  "set_add ms x = Inr ms' \<Longrightarrow> list_ex (py_eq y) ms \<Longrightarrow> list_ex (py_eq y) ms'"
  by (auto simp add: set_add_def split: if_splits)

lemma fold_err_established:
  assumes "fold_err f xs s = Inr s'" and "x \<in> set xs"
    and est: "\<And>a b. f a x = Inr b \<Longrightarrow> Q b"
    and mono: "\<And>a y b. Q a \<Longrightarrow> f a y = Inr b \<Longrightarrow> Q b"
  shows "Q s'"
  using assms(1,2)
proof (induction xs arbitrary: s)
  case Nil
  then show ?case by simp
next
  case (Cons y ys)
  from Cons.prems(1) obtain s1 where s1: "f s y = Inr s1" and rest: "fold_err f ys s1 = Inr s'"
    by (auto split: sum.splits)
  show ?case
  proof (cases "x = y")
    case True
    with s1 have "Q s1" by (auto intro: est)
    with rest show ?thesis
      by (rule fold_err_invariant) (rule mono)
  next
    case False
    with Cons.prems(2) have "x \<in> set ys" by simp
    with rest show ?thesis by (rule Cons.IH)
  qed
qed

lemma collect_page_mono:
  "collect_page ms page = Inr ms' \<Longrightarrow> list_ex (py_eq y) ms \<Longrightarrow> list_ex (py_eq y) ms'"
  by (auto simp add: collect_page_def bind_err_eq_Inr split: if_splits dest: set_add_mono)

lemma collect_page_member:
  assumes "collect_page ms page = Inr ms'" and "py_getitem page ''isReference'' = Inr r"
    and "\<not> truthy r" and "py_getitem page ''slug'' = Inr slug"
  shows "list_ex (py_eq slug) ms'"
  using assms
  by (auto simp add: collect_page_def dest: set_add_member)

lemma collect_doc_mono:
  assumes "collect_doc ms doc = Inr ms'" and "list_ex (py_eq y) ms"
  shows "list_ex (py_eq y) ms'"
proof -
  from assms(1) obtain ps where "fold_err collect_page ps ms = Inr ms'"
    by (auto simp add: collect_doc_def bind_err_eq_Inr)
  then show ?thesis
    using assms(2) by (rule fold_err_invariant) (rule collect_page_mono)
qed

lemma collect_doc_member:
  assumes "collect_doc ms doc = Inr ms'" and "py_getitem doc ''pages'' = Inr pages"
    and "py_iter pages = Inr ps" and "page \<in> set ps"
    and "py_getitem page ''isReference'' = Inr r"
    and "\<not> truthy r" and "py_getitem page ''slug'' = Inr slug"
  shows "list_ex (py_eq slug) ms'"
proof -
  from assms(1,2,3) have "fold_err collect_page ps ms = Inr ms'"
    by (simp add: collect_doc_def)
  then show ?thesis
    using assms(4)
  proof (rule fold_err_established)
    fix a b assume "collect_page a page = Inr b"
    then show "list_ex (py_eq slug) b"
      using assms(5,6,7) by (rule collect_page_member)
  next
    fix a y b assume "list_ex (py_eq slug) a" and "collect_page a y = Inr b"
    then show "list_ex (py_eq slug) b" by (auto dest: collect_page_mono)
  qed
qed

lemma collect_non_reference_member:
  assumes "collect_non_reference docs = Inr ms" and "py_iter docs = Inr ds" and "doc \<in> set ds"
    and "py_getitem doc ''pages'' = Inr pages"
    and "py_iter pages = Inr ps" and "page \<in> set ps"
    and "py_getitem page ''isReference'' = Inr r"
    and "\<not> truthy r" and "py_getitem page ''slug'' = Inr slug"
  shows "list_ex (py_eq slug) ms"
proof -
  from assms(1,2) have "fold_err collect_doc ds [] = Inr ms"
    by (simp add: collect_non_reference_def)
  then show ?thesis
    using assms(3)
  proof (rule fold_err_established)
    fix a b assume "collect_doc a doc = Inr b"
    then show "list_ex (py_eq slug) b"
      using assms(4-9) by (rule collect_doc_member)
  next
    fix a y b assume "list_ex (py_eq slug) a" and "collect_doc a y = Inr b"
    then show "list_ex (py_eq slug) b" by (auto dest: collect_doc_mono)
  qed
qed

lemma fold_err_outcome:
  assumes "P s" and "\<And>a x. P a \<Longrightarrow> x \<in> set xs \<Longrightarrow> P (outcome_state (f a x))"
  shows "P (outcome_state (fold_err f xs s))"
  using assms
proof (induction xs arbitrary: s)
  case Nil
  then show ?case by (simp add: outcome_state_def)
next
  case (Cons x xs)
  have step: "P (outcome_state (f s x))"
    by (rule Cons.prems(2) [OF Cons.prems(1)]) simp
  show ?case
  proof (cases "f s x")
    case (Inl e)
    with step show ?thesis by (simp add: outcome_state_def)
  next
    case (Inr s1)
    with step have "P s1" by (simp add: outcome_state_def)
    then have "P (outcome_state (fold_err f xs s1))"
      by (rule Cons.IH) (simp add: Cons.prems(2))
    with Inr show ?thesis by simp
  qed
qed

lemma outcome_state_simps [simp]:
  "outcome_state (Inl (e, st)) = st" "outcome_state (Inr st) = st"
  by (simp_all add: outcome_state_def)

lemma outcome_bind_raise:
  assumes "P st" and "\<And>x. m = Inr x \<Longrightarrow> P (outcome_state (f x))"
  shows "P (outcome_state (bind_err (raise_in st m) f))"
  using assms by (cases m) (simp_all add: raise_in_def)

lemma crawl_page_fetched_cases:
  "fetched (outcome_state (crawl_page env url_prefix nonref st page)) = fetched st
   \<or> (\<exists>s. \<not> list_ex (py_eq (JStr s)) nonref
         \<and> fetched (outcome_state (crawl_page env url_prefix nonref st page))
             = fetched st @ [url_prefix @ s])"
  by (auto simp add: crawl_page_def bind_err_def raise_in_def outcome_state_def Let_def
      set_contains_def split: sum.splits if_splits json.splits)

lemma crawl_page_fetched:
  assumes "set (fetched st) \<subseteq> crawlable url_prefix nonref"
  shows "set (fetched (outcome_state (crawl_page env url_prefix nonref st page)))
           \<subseteq> crawlable url_prefix nonref"
  using crawl_page_fetched_cases [of env url_prefix nonref st page] assms
  by (auto simp add: crawlable_def)

lemma crawl_ref_fetched:
  assumes "set (fetched st) \<subseteq> crawlable url_prefix nonref"
  shows "set (fetched (outcome_state (crawl_ref env url_prefix nonref st ref)))
           \<subseteq> crawlable url_prefix nonref"
proof (cases "py_getitem ref ''pages''")
  case (Inl e)
  with assms show ?thesis by (simp add: crawl_ref_def raise_in_def)
next
  case (Inr pages)
  show ?thesis
  proof (cases "py_iter pages")
    case (Inl e)
    with Inr assms show ?thesis by (simp add: crawl_ref_def raise_in_def)
  next
    case ps: (Inr ps)
    have "set (fetched (outcome_state (fold_err (crawl_page env url_prefix nonref) ps st)))
            \<subseteq> crawlable url_prefix nonref"
      using assms
      by (rule fold_err_outcome [where P = "\<lambda>s. set (fetched s) \<subseteq> crawlable url_prefix nonref"])
        (rule crawl_page_fetched)
    with Inr ps show ?thesis by (simp add: crawl_ref_def raise_in_def)
  qed
qed

lemma crawl_refs_fetched:
  assumes "set (fetched st) \<subseteq> crawlable url_prefix nonref"
  shows "set (fetched (outcome_state (fold_err (crawl_ref env url_prefix nonref) refs st)))
           \<subseteq> crawlable url_prefix nonref"
  using assms
  by (rule fold_err_outcome [where P = "\<lambda>s. set (fetched s) \<subseteq> crawlable url_prefix nonref"])
    (rule crawl_ref_fetched)

lemma fetched_finalize:
  "fetched (outcome_state (bind_err r (\<lambda>st. Inr (finalize env st)))) = fetched (outcome_state r)"
  by (cases r) (auto simp add: finalize_def Let_def)

lemma raise_in_simps [simp]:
  "raise_in st (Inl e) = Inl (e, st)" "raise_in st (Inr x) = Inr x"
  by (simp_all add: raise_in_def)

lemma main_fetched:
  assumes "fst (fetch_ssr_props env start_url fs) = Inr start_props"
    and "py_getitem start_props ''sidebars'' = Inr sidebars"
    and "py_getitem sidebars ''docs'' = Inr docs"
  shows "fetched (outcome_state (main env start_url fs)) = []
         \<or> (\<exists>nonref. collect_non_reference docs = Inr nonref
               \<and> set (fetched (outcome_state (main env start_url fs)))
                    \<subseteq> crawlable (url_prefix_of start_url) nonref)"
proof -
  define st0 where
    "st0 = \<lparr>files = snd (fetch_ssr_props env start_url fs), oas_definition = [], fetched = []\<rparr>"
  have empty: "fetched st0 = []" by (simp add: st0_def)
  have main_eq: "main env start_url fs =
      bind_err (raise_in st0 (py_getitem sidebars ''refs'')) (\<lambda>refs.
      bind_err (raise_in st0 (collect_non_reference docs)) (\<lambda>non_reference_pages.
      bind_err (raise_in st0 (py_getitem start_props ''oasDefinition'')) (\<lambda>od.
      bind_err (raise_in st0 (seed_oas od)) (\<lambda>seed.
      bind_err (raise_in st0 (py_iter refs)) (\<lambda>ref_list.
      bind_err (fold_err (crawl_ref env (url_prefix_of start_url) non_reference_pages) ref_list
                  (st0\<lparr>oas_definition := seed\<rparr>)) (\<lambda>st.
      Inr (finalize env st)))))))"
    using assms by (simp add: main_def Let_def st0_def)
  show ?thesis
  proof (cases "py_getitem sidebars ''refs''")
    case (Inl e)
    then show ?thesis by (simp add: main_eq empty)
  next
    case refs: (Inr refs)
    show ?thesis
    proof (cases "collect_non_reference docs")
      case (Inl e)
      with refs show ?thesis by (simp add: main_eq empty)
    next
      case nonref: (Inr nonref)
      have "set (fetched (outcome_state (main env start_url fs)))
              \<subseteq> crawlable (url_prefix_of start_url) nonref"
      proof (cases "py_getitem start_props ''oasDefinition''")
        case (Inl e)
        with refs nonref show ?thesis by (simp add: main_eq empty)
      next
        case od: (Inr od)
        show ?thesis
        proof (cases "seed_oas od")
          case (Inl e)
          with refs nonref od show ?thesis by (simp add: main_eq empty)
        next
          case seed: (Inr seed)
          show ?thesis
          proof (cases "py_iter refs")
            case (Inl e)
            with refs nonref od seed show ?thesis by (simp add: main_eq empty)
          next
            case (Inr ref_list)
            have "set (fetched (st0\<lparr>oas_definition := seed\<rparr>))
                    \<subseteq> crawlable (url_prefix_of start_url) nonref"
              by (simp add: empty)
            then have "set (fetched (outcome_state
                (fold_err (crawl_ref env (url_prefix_of start_url) nonref) ref_list
                  (st0\<lparr>oas_definition := seed\<rparr>))))
              \<subseteq> crawlable (url_prefix_of start_url) nonref"
              by (rule crawl_refs_fetched)
            with refs nonref od seed Inr show ?thesis
              by (simp add: main_eq fetched_finalize)
          qed
        qed
      qed
      with nonref show ?thesis by simp
    qed
  qed
qed

text \<open>
  Claim C4. When the start page's primary documentation navigation holds a page whose
  \<^verbatim>\<open>isReference\<close> is false and whose slug is the string \<open>slug\<close>, the crawl loop never passes
  the URL of that slug to \<^verbatim>\<open>fetch_ssr_props\<close>, in a run that returns and in a run that an
  exception ends alike, even when the slug is listed in a reference group; a listed page
  with that slug (and a title) is skipped: the loop body returns the state unchanged, without
  an exception.
\<close>

theorem non_reference_never_fetched:
  assumes "fst (fetch_ssr_props env start_url fs) = Inr start_props"
    and "py_getitem start_props ''sidebars'' = Inr sidebars"
    and "py_getitem sidebars ''docs'' = Inr docs"
    and "py_iter docs = Inr ds" and "doc \<in> set ds"
    and "py_getitem doc ''pages'' = Inr pages"
    and "py_iter pages = Inr ps" and "page \<in> set ps"
    and "py_getitem page ''isReference'' = Inr r" and "\<not> truthy r"
    and "py_getitem page ''slug'' = Inr (JStr slug)"
  shows "url_prefix_of start_url @ slug \<notin> set (fetched (outcome_state (main env start_url fs)))
       \<and> (\<forall>nonref st ref_page title.
            collect_non_reference docs = Inr nonref
            \<and> py_getitem ref_page ''slug'' = Inr (JStr slug)
            \<and> py_getitem ref_page ''title'' = Inr title
            \<longrightarrow> crawl_page env (url_prefix_of start_url) nonref st ref_page = Inr st)"
proof
  from main_fetched [OF assms(1,2,3)]
  show "url_prefix_of start_url @ slug \<notin> set (fetched (outcome_state (main env start_url fs)))"
  proof
    assume "fetched (outcome_state (main env start_url fs)) = []"
    then show ?thesis by simp
  next
    assume "\<exists>nonref. collect_non_reference docs = Inr nonref
               \<and> set (fetched (outcome_state (main env start_url fs)))
                    \<subseteq> crawlable (url_prefix_of start_url) nonref"
    then obtain nonref where nonref: "collect_non_reference docs = Inr nonref"
      and sub: "set (fetched (outcome_state (main env start_url fs)))
                    \<subseteq> crawlable (url_prefix_of start_url) nonref"
      by blast
    from nonref assms(4-11) have "list_ex (py_eq (JStr slug)) nonref"
      by (rule collect_non_reference_member)
    then have "url_prefix_of start_url @ slug \<notin> crawlable (url_prefix_of start_url) nonref"
      by (auto simp add: crawlable_def)
    with sub show ?thesis by blast
  qed
next
  show "\<forall>nonref st ref_page title.
            collect_non_reference docs = Inr nonref
            \<and> py_getitem ref_page ''slug'' = Inr (JStr slug)
            \<and> py_getitem ref_page ''title'' = Inr title
            \<longrightarrow> crawl_page env (url_prefix_of start_url) nonref st ref_page = Inr st"
  proof (intro allI impI)
    fix nonref st ref_page title
    assume h: "collect_non_reference docs = Inr nonref
            \<and> py_getitem ref_page ''slug'' = Inr (JStr slug)
            \<and> py_getitem ref_page ''title'' = Inr title"
    then have "collect_non_reference docs = Inr nonref" by simp
    from this assms(4-11) have "list_ex (py_eq (JStr slug)) nonref"
      by (rule collect_non_reference_member)
    with h show "crawl_page env (url_prefix_of start_url) nonref st ref_page = Inr st"
      by (simp add: crawl_page_def set_contains_def)
  qed
qed

theorem non_reference_never_fetched_witness:
  "url_prefix_of ''site'' @ ''intro''
     \<notin> set (fetched (outcome_state (main (demo_env [] []) ''site''
          (demo_cache [(''site'', ''S''), (''site/pets'', ''P''), (''site/orders'', ''O'')]))))
   \<and> fetched (outcome_state (main (demo_env [] []) ''site''
          (demo_cache [(''site'', ''S''), (''site/pets'', ''P''), (''site/orders'', ''O'')])))
     = [''site/pets'', ''site/orders'']"
proof -
  let ?intro = "JObj [(''slug'', JStr ''intro''), (''isReference'', JBool False)]"
  let ?pets = "JObj [(''slug'', JStr ''pets''), (''isReference'', JBool True)]"
  let ?doc = "JObj [(''pages'', JArr [?intro, ?pets])]"
  let ?fs = "demo_cache [(''site'', ''S''), (''site/pets'', ''P''), (''site/orders'', ''O'')]"
  have h1: "fst (fetch_ssr_props (demo_env [] []) ''site'' ?fs) = Inr demo_start_props"
    by (simp add: fetch_ssr_props_def demo_env_def demo_cache_def table_loads_def)
  obtain sidebars where h2: "py_getitem demo_start_props ''sidebars'' = Inr sidebars"
    and h3: "py_getitem sidebars ''docs'' = Inr (JArr [?doc])"
    by (simp add: demo_start_props_def)
  have h4: "py_iter (JArr [?doc]) = Inr [?doc]" by simp
  have h5: "?doc \<in> set [?doc]" by simp
  have h6: "py_getitem ?doc ''pages'' = Inr (JArr [?intro, ?pets])" by simp
  have h7: "py_iter (JArr [?intro, ?pets]) = Inr [?intro, ?pets]" by simp
  have h8: "?intro \<in> set [?intro, ?pets]" by simp
  have h9: "py_getitem ?intro ''isReference'' = Inr (JBool False)" by simp
  have h10: "\<not> truthy (JBool False)" by simp
  have h11: "py_getitem ?intro ''slug'' = Inr (JStr ''intro'')" by simp
  have log: "fetched (outcome_state (main (demo_env [] []) ''site'' ?fs))
     = [''site/pets'', ''site/orders'']"
    by (simp add: run_defs)
  from non_reference_never_fetched [OF h1 h2 h3 h4 h5 h6 h7 h8 h9 h10 h11] log
  show ?thesis by blast
qed

section \<open>The start page's fragment\<close>

text \<open>
  Claim C1, as stated, fails. The start page of the one-page site carries the path
  \<^verbatim>\<open>/start\<close> and the component \<^verbatim>\<open>Pet\<close>; the finished tree of the run has empty \<^verbatim>\<open>paths\<close> and
  \<^verbatim>\<open>components\<close>, whereas merging the start fragment into the seed, as a later page would
  be, yields both entries.
\<close>

theorem start_fragment_replay_counterexample:
  "map_sum fst oas_definition (main (demo_env [] []) ''solo'' (demo_cache [(''solo'', ''E'')]))
     = Inr [(''openapi'', JStr ''3.0.0''), (''paths'', JObj []), (''components'', JObj [])]
   \<and> py_getitem demo_single_props ''oasDefinition''
     = Inr (JObj [(''openapi'', JStr ''3.0.0''),
                  (''paths'', JObj [(''/start'', JObj [(''get'', JObj [(''summary'', JStr ''start'')])])]),
                  (''components'', JObj [(''schemas'', JObj [(''Pet'', JObj [])])])])
   \<and> seed_oas (JObj [(''openapi'', JStr ''3.0.0''),
                  (''paths'', JObj [(''/start'', JObj [(''get'', JObj [(''summary'', JStr ''start'')])])]),
                  (''components'', JObj [(''schemas'', JObj [(''Pet'', JObj [])])])])
     = Inr [(''openapi'', JStr ''3.0.0''), (''paths'', JObj []), (''components'', JObj [])]
   \<and> merge_oas_definitions
        [(''openapi'', JStr ''3.0.0''), (''paths'', JObj []), (''components'', JObj [])]
        (JObj [(''openapi'', JStr ''3.0.0''),
               (''paths'', JObj [(''/start'', JObj [(''get'', JObj [(''summary'', JStr ''start'')])])]),
               (''components'', JObj [(''schemas'', JObj [(''Pet'', JObj [])])])])
     = Inr [(''openapi'', JStr ''3.0.0''),
            (''paths'', JObj [(''/start'', JObj [(''get'', JObj [(''summary'', JStr ''start'')])])]),
            (''components'', JObj [(''schemas'', JObj [(''Pet'', JObj [])])])]"
  by (simp add: run_defs)

lemma seed_oas_obj:
  "seed_oas (JObj d) = Inr (AList.update ''components'' (JObj []) (AList.update ''paths'' (JObj []) d))"
  by (simp add: seed_oas_def)

lemma main_from_seed:
  assumes "fst (fetch_ssr_props env start_url fs) = Inr start_props"
    and "py_getitem start_props ''sidebars'' = Inr sidebars"
    and "py_getitem sidebars ''refs'' = Inr refs"
    and "py_getitem sidebars ''docs'' = Inr docs"
    and "collect_non_reference docs = Inr nonref"
    and "py_getitem start_props ''oasDefinition'' = Inr (JObj d)"
    and "py_iter refs = Inr ref_list"
  shows "main env start_url fs =
     bind_err (fold_err (crawl_ref env (url_prefix_of start_url) nonref) ref_list
                 \<lparr>files = snd (fetch_ssr_props env start_url fs),
                  oas_definition = AList.update ''components'' (JObj [])
                                     (AList.update ''paths'' (JObj []) d),
                  fetched = []\<rparr>)
       (\<lambda>st. Inr (finalize env st))"
  using assms by (simp add: main_def Let_def seed_oas_obj)

text \<open>
  Claim C1, amended. The seed holds every top-level key of the start page's fragment, with
  \<^verbatim>\<open>paths\<close> and \<^verbatim>\<open>components\<close> reset to empty dictionaries and every other key unchanged. The
  start fragment is not merged: a run of \<^verbatim>\<open>main\<close> is the loop over the reference groups
  started from that seed, followed by the finalisation; when there is no reference group
  the finished tree has empty \<^verbatim>\<open>paths\<close> and \<^verbatim>\<open>components\<close>.
\<close>

theorem start_fragment_seeds_only:
  "(\<exists>seed. seed_oas (JObj d) = Inr seed
       \<and> map_of seed ''paths'' = Some (JObj []) \<and> map_of seed ''components'' = Some (JObj [])
       \<and> (\<forall>k. k \<noteq> ''paths'' \<and> k \<noteq> ''components'' \<longrightarrow> map_of seed k = map_of d k))
   \<and> (fst (fetch_ssr_props env start_url fs) = Inr start_props
      \<and> py_getitem start_props ''sidebars'' = Inr sidebars
      \<and> py_getitem sidebars ''refs'' = Inr refs
      \<and> py_getitem sidebars ''docs'' = Inr docs
      \<and> collect_non_reference docs = Inr nonref
      \<and> py_getitem start_props ''oasDefinition'' = Inr (JObj d)
      \<and> py_iter refs = Inr ref_list
     \<longrightarrow> main env start_url fs =
           bind_err (fold_err (crawl_ref env (url_prefix_of start_url) nonref) ref_list
                       \<lparr>files = snd (fetch_ssr_props env start_url fs),
                        oas_definition = AList.update ''components'' (JObj [])
                                           (AList.update ''paths'' (JObj []) d),
                        fetched = []\<rparr>)
             (\<lambda>st. Inr (finalize env st))
         \<and> (ref_list = [] \<longrightarrow>
              (\<exists>final. main env start_url fs = Inr final
                 \<and> map_of (oas_definition final) ''paths'' = Some (JObj [])
                 \<and> map_of (oas_definition final) ''components'' = Some (JObj []))))"
proof (intro conjI impI)
  show "\<exists>seed. seed_oas (JObj d) = Inr seed
       \<and> map_of seed ''paths'' = Some (JObj []) \<and> map_of seed ''components'' = Some (JObj [])
       \<and> (\<forall>k. k \<noteq> ''paths'' \<and> k \<noteq> ''components'' \<longrightarrow> map_of seed k = map_of d k)"
    by (simp add: seed_oas_obj update_conv')
next
  assume h: "fst (fetch_ssr_props env start_url fs) = Inr start_props
      \<and> py_getitem start_props ''sidebars'' = Inr sidebars
      \<and> py_getitem sidebars ''refs'' = Inr refs
      \<and> py_getitem sidebars ''docs'' = Inr docs
      \<and> collect_non_reference docs = Inr nonref
      \<and> py_getitem start_props ''oasDefinition'' = Inr (JObj d)
      \<and> py_iter refs = Inr ref_list"
  then show eq: "main env start_url fs =
           bind_err (fold_err (crawl_ref env (url_prefix_of start_url) nonref) ref_list
                       \<lparr>files = snd (fetch_ssr_props env start_url fs),
                        oas_definition = AList.update ''components'' (JObj [])
                                           (AList.update ''paths'' (JObj []) d),
                        fetched = []\<rparr>)
             (\<lambda>st. Inr (finalize env st))"
    by (simp add: main_from_seed)
  assume "ref_list = []"
  with eq show "\<exists>final. main env start_url fs = Inr final
                 \<and> map_of (oas_definition final) ''paths'' = Some (JObj [])
                 \<and> map_of (oas_definition final) ''components'' = Some (JObj [])"
    by (simp add: finalize_def Let_def update_conv' delete_conv')
qed

theorem start_fragment_seeds_only_witness:
  "\<exists>final. main (demo_env [] []) ''solo'' (demo_cache [(''solo'', ''E'')]) = Inr final
      \<and> map_of (oas_definition final) ''paths'' = Some (JObj [])
      \<and> map_of (oas_definition final) ''components'' = Some (JObj [])"
proof -
  let ?d = "[(''openapi'', JStr ''3.0.0''),
             (''paths'', JObj [(''/start'', JObj [(''get'', JObj [(''summary'', JStr ''start'')])])]),
             (''components'', JObj [(''schemas'', JObj [(''Pet'', JObj [])])])]"
  let ?sidebars = "JObj [(''refs'', JArr []), (''docs'', JArr [])]"
  have h: "fst (fetch_ssr_props (demo_env [] []) ''solo'' (demo_cache [(''solo'', ''E'')]))
             = Inr demo_single_props
      \<and> py_getitem demo_single_props ''sidebars'' = Inr ?sidebars
      \<and> py_getitem ?sidebars ''refs'' = Inr (JArr [])
      \<and> py_getitem ?sidebars ''docs'' = Inr (JArr [])
      \<and> collect_non_reference (JArr []) = Inr []
      \<and> py_getitem demo_single_props ''oasDefinition'' = Inr (JObj ?d)
      \<and> py_iter (JArr []) = Inr []"
    by (simp add: fetch_ssr_props_def demo_env_def demo_cache_def table_loads_def
        demo_single_props_def collect_non_reference_def)
  from start_fragment_seeds_only [where d = ?d and env = "demo_env [] []" and start_url = "''solo''"
      and fs = "demo_cache [(''solo'', ''E'')]" and start_props = demo_single_props
      and sidebars = ?sidebars and refs = "JArr []" and docs = "JArr []" and nonref = "[]"
      and ref_list = "[]", THEN conjunct2] h
  show ?thesis by blast
qed

section \<open>Failures on reference pages\<close>

lemmas parse_defs = parse_truncated_json_def scan_pairs_def scan_finish_def scan_char_def
  scan_init_def strip_braces_def strip_def isspace_def backslash_def parse_pair_def

text \<open>
  Claim C2, as stated, fails. On the small site, the page \<^verbatim>\<open>pets\<close> is answered with status
  200 and a body without the marker \<^verbatim>\<open>id="ssr-props"\<close>: the assertion of line 127 fails,
  \<^verbatim>\<open>main\<close> ends with \<^verbatim>\<open>AssertionError\<close>, and the next page, \<^verbatim>\<open>orders\<close>, is never fetched. The same
  happens when the body is truncated inside the attribute and the recovered mapping lacks
  \<^verbatim>\<open>oasDefinition\<close> (line 145).
\<close>

theorem failing_reference_page_counterexample:
  \<open>map_sum fst fetched
      (main (demo_env [(''site/pets'', 200, ''<html></html>'')] []) ''site''
         (demo_cache [(''site'', ''S''), (''site/orders'', ''O'')]))
     = Inl AssertionError
   \<and> fetched (outcome_state
      (main (demo_env [(''site/pets'', 200, ''<html></html>'')] []) ''site''
         (demo_cache [(''site'', ''S''), (''site/orders'', ''O'')])))
     = [''site/pets'']
   \<and> map_sum fst fetched
      (main (demo_env [(''site/pets'', 200, ''<script id="ssr-props" data-initial-props="{&quot;a&quot;:1'')]
                      [(''<script id="ssr-props" data-initial-props="{&quot;a&quot;:1"></script>'', ''{"a":1'')])
         ''site'' (demo_cache [(''site'', ''S''), (''site/orders'', ''O'')]))
     = Inl AssertionError
   \<and> fetched (outcome_state
      (main (demo_env [(''site/pets'', 200, ''<script id="ssr-props" data-initial-props="{&quot;a&quot;:1'')]
                      [(''<script id="ssr-props" data-initial-props="{&quot;a&quot;:1"></script>'', ''{"a":1'')])
         ''site'' (demo_cache [(''site'', ''S''), (''site/orders'', ''O'')])))
     = [''site/pets'']\<close>
  by (simp add: run_defs parse_defs)

lemma fetch_marker_missing:
  assumes "fs (''out/cache/not_found_'' @ env_sha256 env url) = None"
    and "fs (''out/cache/ssr_props_'' @ env_sha256 env url @ ''.json'') = None"
    and "env_get env url = Inr (200, html)"
    and "str_find html tag_needle 0 = None
         \<or> (\<exists>i. str_find html tag_needle 0 = Some i
                \<and> str_find html attr_needle (i + length tag_needle) = None)"
  shows "fetch_ssr_props env url fs = (Inl AssertionError, fs(''out/processing.html'' \<mapsto> html))"
  using assms by (auto simp add: fetch_ssr_props_def Let_def)

lemma fetch_recovery_incomplete:
  assumes "fs (''out/cache/not_found_'' @ env_sha256 env url) = None"
    and "fs (''out/cache/ssr_props_'' @ env_sha256 env url @ ''.json'') = None"
    and "env_get env url = Inr (200, html)"
    and "str_find html tag_needle 0 = Some i"
    and "str_find html attr_needle (i + length tag_needle) = Some j"
    and "str_find html [dquote] (j + length attr_needle) = None"
    and "env_soup env (html @ [dquote] @ ''></script>'') = Some (Some data_json)"
    and "parse_truncated_json (env_loads env) data_json = Inr data"
    and "map_of data ''oasDefinition'' = None"
  shows "fetch_ssr_props env url fs = (Inl AssertionError, fs(''out/processing.html'' \<mapsto> html))"
  using assms by (simp add: fetch_ssr_props_def Let_def extract_props_def)

lemma fetch_not_ok:
  assumes "fs (''out/cache/not_found_'' @ env_sha256 env url) = None"
    and "fs (''out/cache/ssr_props_'' @ env_sha256 env url @ ''.json'') = None"
    and "env_get env url = Inr (status, body)" and "status \<noteq> 200"
  shows "fetch_ssr_props env url fs
     = (Inr JNull, if status = 404 then fs(''out/cache/not_found_'' @ env_sha256 env url \<mapsto> [])
                   else fs)"
  using assms by (simp add: fetch_ssr_props_def Let_def)

lemma fetch_known_missing:
  assumes "fs (''out/cache/not_found_'' @ env_sha256 env url) \<noteq> None"
  shows "fetch_ssr_props env url fs = (Inr JNull, fs)"
  using assms by (simp add: fetch_ssr_props_def Let_def)

lemma crawl_page_raises:
  assumes "py_getitem page ''slug'' = Inr (JStr s)" and "set_contains nonref (JStr s) = Inr False"
    and "py_getitem page ''title'' = Inr t"
    and "fst (fetch_ssr_props env (url_prefix @ s) (files st)) = Inl e"
  shows "crawl_page env url_prefix nonref st page
     = Inl (e, st\<lparr>files := snd (fetch_ssr_props env (url_prefix @ s) (files st)),
                  fetched := fetched st @ [url_prefix @ s]\<rparr>)"
  using assms by (simp add: crawl_page_def Let_def)

lemma crawl_page_skips:
  assumes "py_getitem page ''slug'' = Inr (JStr s)" and "set_contains nonref (JStr s) = Inr False"
    and "py_getitem page ''title'' = Inr t"
    and "fst (fetch_ssr_props env (url_prefix @ s) (files st)) = Inr props"
    and "props = JNull
         \<or> py_contains ''oasDefinition'' props = Inr False
         \<or> (\<exists>od. py_getitem props ''oasDefinition'' = Inr od \<and> \<not> truthy od)"
  shows "crawl_page env url_prefix nonref st page
     = Inr (st\<lparr>files := snd (fetch_ssr_props env (url_prefix @ s) (files st)),
                 fetched := fetched st @ [url_prefix @ s]\<rparr>)"
proof -
  from assms(5) consider "props = JNull" | "props \<noteq> JNull" "py_contains ''oasDefinition'' props = Inr False"
    | od where "props \<noteq> JNull" "py_getitem props ''oasDefinition'' = Inr od" "\<not> truthy od"
    by blast
  then show ?thesis
  proof cases
    case 1
    with assms(1-4) show ?thesis by (simp add: crawl_page_def Let_def)
  next
    case 2
    with assms(1-4) show ?thesis by (simp add: crawl_page_def Let_def)
  next
    case 3
    from 3(2) obtain d where "props = JObj d" and "map_of d ''oasDefinition'' = Some od"
      by (auto simp add: py_getitem_eq_Inr)
    with 3 assms(1-4) show ?thesis by (simp add: crawl_page_def Let_def)
  qed
qed

lemma fold_err_append:
  "fold_err f (xs @ ys) s = (case fold_err f xs s of Inl e \<Rightarrow> Inl e | Inr s' \<Rightarrow> fold_err f ys s')"
  by (induction xs arbitrary: s) (simp_all split: sum.splits)

lemma main_aborts:
  assumes start: "fst (fetch_ssr_props env start_url fs) = Inr start_props"
      "py_getitem start_props ''sidebars'' = Inr sidebars"
      "py_getitem sidebars ''refs'' = Inr refs"
      "py_getitem sidebars ''docs'' = Inr docs"
      "collect_non_reference docs = Inr nonref"
      "py_getitem start_props ''oasDefinition'' = Inr (JObj d)"
      "py_iter refs = Inr (before_refs @ ref # later_refs)"
    and before_refs: "fold_err (crawl_ref env (url_prefix_of start_url) nonref) before_refs
         \<lparr>files = snd (fetch_ssr_props env start_url fs),
          oas_definition = AList.update ''components'' (JObj [])
                             (AList.update ''paths'' (JObj []) d),
          fetched = []\<rparr> = Inr st0"
    and pages: "py_getitem ref ''pages'' = Inr pages"
      "py_iter pages = Inr (before_pages @ page # later_pages)"
    and before_pages: "fold_err (crawl_page env (url_prefix_of start_url) nonref) before_pages st0
         = Inr st"
    and page: "py_getitem page ''slug'' = Inr (JStr s)" "set_contains nonref (JStr s) = Inr False"
      "py_getitem page ''title'' = Inr t"
    and raised: "fst (fetch_ssr_props env (url_prefix_of start_url @ s) (files st)) = Inl e"
  shows "main env start_url fs
     = Inl (e, st\<lparr>files := snd (fetch_ssr_props env (url_prefix_of start_url @ s) (files st)),
                  fetched := fetched st @ [url_prefix_of start_url @ s]\<rparr>)"
proof -
  have "crawl_ref env (url_prefix_of start_url) nonref st0 ref
     = Inl (e, st\<lparr>files := snd (fetch_ssr_props env (url_prefix_of start_url @ s) (files st)),
                  fetched := fetched st @ [url_prefix_of start_url @ s]\<rparr>)"
    using pages before_pages crawl_page_raises [OF page raised]
    by (simp add: crawl_ref_def fold_err_append)
  with before_refs have "fold_err (crawl_ref env (url_prefix_of start_url) nonref)
         (before_refs @ ref # later_refs)
         \<lparr>files = snd (fetch_ssr_props env start_url fs),
          oas_definition = AList.update ''components'' (JObj [])
                             (AList.update ''paths'' (JObj []) d),
          fetched = []\<rparr>
     = Inl (e, st\<lparr>files := snd (fetch_ssr_props env (url_prefix_of start_url @ s) (files st)),
                  fetched := fetched st @ [url_prefix_of start_url @ s]\<rparr>)"
    by (simp add: fold_err_append)
  with main_from_seed [OF start] show ?thesis by simp
qed

text \<open>
  Claim C2, amended. For a reference page that is fetched over HTTP with status 200, a
  missing marker (tag or attribute) and a recovered mapping without \<^verbatim>\<open>oasDefinition\<close> make
  \<^verbatim>\<open>fetch_ssr_props\<close> raise \<^verbatim>\<open>AssertionError\<close>, the body staying in \<^verbatim>\<open>out/processing.html\<close>. An
  exception raised while a reference page is fetched, wherever the page stands in the
  reference groups, ends \<^verbatim>\<open>main\<close> with that exception in the state reached at that page: no
  later page is fetched. A page is skipped, the tree unchanged and the loop going on with the
  next page, when \<^verbatim>\<open>fetch_ssr_props\<close> returns \<^verbatim>\<open>None\<close> or when its payload has no
  \<^verbatim>\<open>oasDefinition\<close> or an empty one; \<^verbatim>\<open>fetch_ssr_props\<close> returns \<^verbatim>\<open>None\<close> for a response whose
  status is not 200 (a 404 being recorded in a not-found file) and when the not-found file
  of the URL exists.
\<close>

theorem failing_reference_page_aborts:
  "(fs (''out/cache/not_found_'' @ env_sha256 env url) = None
      \<and> fs (''out/cache/ssr_props_'' @ env_sha256 env url @ ''.json'') = None
      \<and> env_get env url = Inr (200, html)
      \<and> (str_find html tag_needle 0 = None
          \<or> (\<exists>i. str_find html tag_needle 0 = Some i
                \<and> str_find html attr_needle (i + length tag_needle) = None))
     \<longrightarrow> fetch_ssr_props env url fs = (Inl AssertionError, fs(''out/processing.html'' \<mapsto> html)))
   \<and> (fs (''out/cache/not_found_'' @ env_sha256 env url) = None
      \<and> fs (''out/cache/ssr_props_'' @ env_sha256 env url @ ''.json'') = None
      \<and> env_get env url = Inr (200, html)
      \<and> str_find html tag_needle 0 = Some i
      \<and> str_find html attr_needle (i + length tag_needle) = Some j
      \<and> str_find html [dquote] (j + length attr_needle) = None
      \<and> env_soup env (html @ [dquote] @ ''></script>'') = Some (Some data_json)
      \<and> parse_truncated_json (env_loads env) data_json = Inr data
      \<and> map_of data ''oasDefinition'' = None
     \<longrightarrow> fetch_ssr_props env url fs = (Inl AssertionError, fs(''out/processing.html'' \<mapsto> html)))
   \<and> (fst (fetch_ssr_props env start_url fs) = Inr start_props
      \<and> py_getitem start_props ''sidebars'' = Inr sidebars
      \<and> py_getitem sidebars ''refs'' = Inr refs
      \<and> py_getitem sidebars ''docs'' = Inr docs
      \<and> collect_non_reference docs = Inr nonref
      \<and> py_getitem start_props ''oasDefinition'' = Inr (JObj d)
      \<and> py_iter refs = Inr (before_refs @ ref # later_refs)
      \<and> fold_err (crawl_ref env (url_prefix_of start_url) nonref) before_refs
           \<lparr>files = snd (fetch_ssr_props env start_url fs),
            oas_definition = AList.update ''components'' (JObj [])
                               (AList.update ''paths'' (JObj []) d),
            fetched = []\<rparr> = Inr st0
      \<and> py_getitem ref ''pages'' = Inr pages
      \<and> py_iter pages = Inr (before_pages @ page # later_pages)
      \<and> fold_err (crawl_page env (url_prefix_of start_url) nonref) before_pages st0 = Inr st
      \<and> py_getitem page ''slug'' = Inr (JStr s) \<and> set_contains nonref (JStr s) = Inr False
      \<and> py_getitem page ''title'' = Inr t
      \<and> fst (fetch_ssr_props env (url_prefix_of start_url @ s) (files st)) = Inl e
     \<longrightarrow> main env start_url fs
           = Inl (e, st\<lparr>files := snd (fetch_ssr_props env (url_prefix_of start_url @ s) (files st)),
                        fetched := fetched st @ [url_prefix_of start_url @ s]\<rparr>))
   \<and> (fs (''out/cache/not_found_'' @ env_sha256 env url) = None
      \<and> fs (''out/cache/ssr_props_'' @ env_sha256 env url @ ''.json'') = None
      \<and> env_get env url = Inr (status, body) \<and> status \<noteq> 200
     \<longrightarrow> fetch_ssr_props env url fs
           = (Inr JNull, if status = 404
                         then fs(''out/cache/not_found_'' @ env_sha256 env url \<mapsto> []) else fs))
   \<and> (fs (''out/cache/not_found_'' @ env_sha256 env url) \<noteq> None
     \<longrightarrow> fetch_ssr_props env url fs = (Inr JNull, fs))
   \<and> (py_getitem page ''slug'' = Inr (JStr s) \<and> set_contains nonref (JStr s) = Inr False
      \<and> py_getitem page ''title'' = Inr t
      \<and> fst (fetch_ssr_props env (url_prefix @ s) (files st)) = Inr props
      \<and> (props = JNull
          \<or> py_contains ''oasDefinition'' props = Inr False
          \<or> (\<exists>od. py_getitem props ''oasDefinition'' = Inr od \<and> \<not> truthy od))
     \<longrightarrow> fold_err (crawl_page env url_prefix nonref) (page # later_pages) st
           = fold_err (crawl_page env url_prefix nonref) later_pages
               (st\<lparr>files := snd (fetch_ssr_props env (url_prefix @ s) (files st)),
                   fetched := fetched st @ [url_prefix @ s]\<rparr>))"
proof (intro conjI impI)
  assume "fst (fetch_ssr_props env start_url fs) = Inr start_props
      \<and> py_getitem start_props ''sidebars'' = Inr sidebars
      \<and> py_getitem sidebars ''refs'' = Inr refs
      \<and> py_getitem sidebars ''docs'' = Inr docs
      \<and> collect_non_reference docs = Inr nonref
      \<and> py_getitem start_props ''oasDefinition'' = Inr (JObj d)
      \<and> py_iter refs = Inr (before_refs @ ref # later_refs)
      \<and> fold_err (crawl_ref env (url_prefix_of start_url) nonref) before_refs
           \<lparr>files = snd (fetch_ssr_props env start_url fs),
            oas_definition = AList.update ''components'' (JObj [])
                               (AList.update ''paths'' (JObj []) d),
            fetched = []\<rparr> = Inr st0
      \<and> py_getitem ref ''pages'' = Inr pages
      \<and> py_iter pages = Inr (before_pages @ page # later_pages)
      \<and> fold_err (crawl_page env (url_prefix_of start_url) nonref) before_pages st0 = Inr st
      \<and> py_getitem page ''slug'' = Inr (JStr s) \<and> set_contains nonref (JStr s) = Inr False
      \<and> py_getitem page ''title'' = Inr t
      \<and> fst (fetch_ssr_props env (url_prefix_of start_url @ s) (files st)) = Inl e"
  then show "main env start_url fs
           = Inl (e, st\<lparr>files := snd (fetch_ssr_props env (url_prefix_of start_url @ s) (files st)),
                        fetched := fetched st @ [url_prefix_of start_url @ s]\<rparr>)"
    by (intro main_aborts) blast+
next
  assume "py_getitem page ''slug'' = Inr (JStr s) \<and> set_contains nonref (JStr s) = Inr False
      \<and> py_getitem page ''title'' = Inr t
      \<and> fst (fetch_ssr_props env (url_prefix @ s) (files st)) = Inr props
      \<and> (props = JNull
          \<or> py_contains ''oasDefinition'' props = Inr False
          \<or> (\<exists>od. py_getitem props ''oasDefinition'' = Inr od \<and> \<not> truthy od))"
  then have "crawl_page env url_prefix nonref st page
     = Inr (st\<lparr>files := snd (fetch_ssr_props env (url_prefix @ s) (files st)),
                 fetched := fetched st @ [url_prefix @ s]\<rparr>)"
    by (intro crawl_page_skips) blast+
  then show "fold_err (crawl_page env url_prefix nonref) (page # later_pages) st
           = fold_err (crawl_page env url_prefix nonref) later_pages
               (st\<lparr>files := snd (fetch_ssr_props env (url_prefix @ s) (files st)),
                   fetched := fetched st @ [url_prefix @ s]\<rparr>)"
    by simp
qed (simp_all add: fetch_marker_missing fetch_recovery_incomplete fetch_not_ok fetch_known_missing)


theorem failing_reference_page_aborts_witness:
  \<open>fst (fetch_ssr_props (demo_env [(''site/pets'', 200, ''<html></html>'')] []) ''site/pets''
          (demo_cache [(''site'', ''S'')]))
     = Inl AssertionError
   \<and> fst (fetch_ssr_props
          (demo_env [(''site/pets'', 200, ''<script id="ssr-props" data-initial-props="{&quot;a&quot;:1'')]
                    [(''<script id="ssr-props" data-initial-props="{&quot;a&quot;:1"></script>'', ''{"a":1'')])
          ''site/pets'' (demo_cache [(''site'', ''S'')]))
     = Inl AssertionError
   \<and> map_sum fst fetched
        (main (demo_env [(''site/pets'', 200, ''<html></html>'')] []) ''site''
           (demo_cache [(''site'', ''S''), (''site/orders'', ''O'')]))
     = Inl AssertionError
   \<and> fetched (outcome_state
        (main (demo_env [(''site/pets'', 200, ''<html></html>'')] []) ''site''
           (demo_cache [(''site'', ''S''), (''site/orders'', ''O'')])))
     = [''site/pets'']
   \<and> fst (fetch_ssr_props (demo_env [(''site/pets'', 404, ''gone'')] []) ''site/pets''
          (demo_cache [(''site'', ''S'')]))
     = Inr JNull
   \<and> snd (fetch_ssr_props (demo_env [(''site/pets'', 404, ''gone'')] []) ''site/pets''
          (demo_cache [(''site'', ''S'')])) ''out/cache/not_found_site/pets''
     = Some []
   \<and> fetch_ssr_props (demo_env [] []) ''site/pets''
        ((demo_cache [(''site'', ''S'')])(''out/cache/not_found_site/pets'' \<mapsto> []))
     = (Inr JNull, (demo_cache [(''site'', ''S'')])(''out/cache/not_found_site/pets'' \<mapsto> []))
   \<and> map_sum fst (\<lambda>st. (oas_definition st, fetched st))
        (fold_err (crawl_page (demo_env [(''site/pets'', 404, ''gone'')] []) ''site/'' [JStr ''intro''])
           [JObj [(''slug'', JStr ''pets''), (''title'', JStr ''Pets'')]]
           \<lparr>files = demo_cache [(''site'', ''S'')], oas_definition = [], fetched = []\<rparr>)
     = Inr ([], [''site/pets''])
   \<and> map_sum fst (\<lambda>st. (oas_definition st, fetched st))
        (fold_err (crawl_page (demo_env [] []) ''site/'' [JStr ''intro''])
           [JObj [(''slug'', JStr ''pets''), (''title'', JStr ''Pets'')]]
           \<lparr>files = demo_cache [(''site/pets'', ''N'')], oas_definition = [], fetched = []\<rparr>)
     = Inr ([], [''site/pets''])
   \<and> map_sum fst (\<lambda>st. (oas_definition st, fetched st))
        (fold_err (crawl_page (demo_env [] []) ''site/'' [JStr ''intro''])
           [JObj [(''slug'', JStr ''pets''), (''title'', JStr ''Pets'')]]
           \<lparr>files = demo_cache [(''site/pets'', ''Z'')], oas_definition = [], fetched = []\<rparr>)
     = Inr ([], [''site/pets''])\<close>
proof -
  let ?fs = "demo_cache [(''site'', ''S'')]"
  let ?fs2 = "demo_cache [(''site'', ''S''), (''site/orders'', ''O'')]"
  let ?intro = "JObj [(''slug'', JStr ''intro''), (''title'', JStr ''Intro'')]"
  let ?pets = "JObj [(''slug'', JStr ''pets''), (''title'', JStr ''Pets'')]"
  let ?orders = "JObj [(''slug'', JStr ''orders''), (''title'', JStr ''Orders'')]"
  let ?ref = "JObj [(''pages'', JArr [?intro, ?pets, ?orders])]"
  let ?doc = "JObj [(''pages'', JArr [
             JObj [(''slug'', JStr ''intro''), (''isReference'', JBool False)],
             JObj [(''slug'', JStr ''pets''), (''isReference'', JBool True)]])]"
  let ?sidebars = "JObj [(''refs'', JArr [?ref]), (''docs'', JArr [?doc])]"
  let ?d = "[(''openapi'', JStr ''3.0.0''), (''_id'', JStr ''s0''), (''x-readme-fauxas'', JBool True),
             (''paths'', JObj [(''/start'', JObj [(''get'', JObj [(''summary'', JStr ''start'')])])])]"
  let ?seed = "\<lparr>files = snd (fetch_ssr_props (demo_env [(''site/pets'', 200, ''<html></html>'')] [])
                               ''site'' ?fs2),
                 oas_definition = AList.update ''components'' (JObj [])
                                    (AList.update ''paths'' (JObj []) ?d),
                 fetched = []\<rparr>"
  let ?E1 = \<open>demo_env [(''site/pets'', 200, ''<html></html>'')] []\<close>
  let ?E2 = \<open>demo_env [(''site/pets'', 200, ''<script id="ssr-props" data-initial-props="{&quot;a&quot;:1'')]
                    [(''<script id="ssr-props" data-initial-props="{&quot;a&quot;:1"></script>'', ''{"a":1'')]\<close>
  let ?E3 = \<open>demo_env [(''site/pets'', 404, ''gone'')] []\<close>
  let ?E0 = \<open>demo_env [] []\<close>
  let ?st = "\<lparr>files = ?fs, oas_definition = [], fetched = []\<rparr>"
  note T = failing_reference_page_aborts
  have c1: "fetch_ssr_props ?E1 ''site/pets'' ?fs
              = (Inl AssertionError, ?fs(''out/processing.html'' \<mapsto> ''<html></html>''))"
    using T [where env = ?E1 and url = "''site/pets''" and fs = ?fs
        and html = "''<html></html>''", THEN conjunct1]
    by (simp add: demo_env_def demo_cache_def str_find_def tag_needle_def)
  have c2: "fst (fetch_ssr_props ?E2 ''site/pets'' ?fs) = Inl AssertionError"
    using T [where env = ?E2 and url = "''site/pets''" and fs = ?fs
        and html = \<open>''<script id="ssr-props" data-initial-props="{&quot;a&quot;:1''\<close>
        and i = 8 and j = 23 and data_json = \<open>''{"a":1''\<close> and data = "[(''a'', JInt 1)]",
        THEN conjunct2, THEN conjunct1]
    by (simp add: demo_env_def demo_cache_def str_find_def tag_needle_def attr_needle_def
        dquote_def table_loads_def parse_defs py_update_def dict_update_def)
  have hyps3: "fst (fetch_ssr_props ?E1 ''site'' ?fs2) = Inr demo_start_props
      \<and> py_getitem demo_start_props ''sidebars'' = Inr ?sidebars
      \<and> py_getitem ?sidebars ''refs'' = Inr (JArr [?ref])
      \<and> py_getitem ?sidebars ''docs'' = Inr (JArr [?doc])
      \<and> collect_non_reference (JArr [?doc]) = Inr [JStr ''intro'']
      \<and> py_getitem demo_start_props ''oasDefinition'' = Inr (JObj ?d)
      \<and> py_iter (JArr [?ref]) = Inr ([] @ ?ref # [])
      \<and> fold_err (crawl_ref ?E1 (url_prefix_of ''site'') [JStr ''intro'']) [] ?seed = Inr ?seed
      \<and> py_getitem ?ref ''pages'' = Inr (JArr [?intro, ?pets, ?orders])
      \<and> py_iter (JArr [?intro, ?pets, ?orders]) = Inr ([?intro] @ ?pets # [?orders])
      \<and> fold_err (crawl_page ?E1 (url_prefix_of ''site'') [JStr ''intro'']) [?intro] ?seed = Inr ?seed
      \<and> py_getitem ?pets ''slug'' = Inr (JStr ''pets'')
      \<and> set_contains [JStr ''intro''] (JStr ''pets'') = Inr False
      \<and> py_getitem ?pets ''title'' = Inr (JStr ''Pets'')
      \<and> fst (fetch_ssr_props ?E1 (url_prefix_of ''site'' @ ''pets'') (files ?seed))
          = Inl AssertionError"
    by (simp add: run_defs)
  have m: "main ?E1 ''site'' ?fs2
      = Inl (AssertionError,
             ?seed\<lparr>files := snd (fetch_ssr_props ?E1 (url_prefix_of ''site'' @ ''pets'') (files ?seed)),
                   fetched := fetched ?seed @ [url_prefix_of ''site'' @ ''pets'']\<rparr>)"
    by (rule mp [OF T [where env = ?E1 and start_url = "''site''" and fs = ?fs2
          and start_props = demo_start_props and sidebars = ?sidebars and refs = "JArr [?ref]"
          and docs = "JArr [?doc]" and nonref = "[JStr ''intro'']" and d = ?d
          and before_refs = "[]" and ref = ?ref and later_refs = "[]" and ?st0.0 = ?seed
          and pages = "JArr [?intro, ?pets, ?orders]" and before_pages = "[?intro]"
          and page = ?pets and later_pages = "[?orders]" and st = ?seed and s = "''pets''"
          and t = "JStr ''Pets''" and e = AssertionError,
          THEN conjunct2, THEN conjunct2, THEN conjunct1] hyps3])
  have c3: "map_sum fst fetched (main ?E1 ''site'' ?fs2) = Inl AssertionError"
    "fetched (outcome_state (main ?E1 ''site'' ?fs2)) = [''site/pets'']"
    by (simp_all add: m url_prefix_of_def)
  have c4: "fetch_ssr_props ?E3 ''site/pets'' ?fs
              = (Inr JNull, ?fs(''out/cache/not_found_site/pets'' \<mapsto> []))"
    using T [where env = ?E3 and url = "''site/pets''" and fs = ?fs
        and status = 404 and body = "''gone''",
        THEN conjunct2, THEN conjunct2, THEN conjunct2, THEN conjunct1]
    by (simp add: demo_env_def demo_cache_def)
  have c5: "fetch_ssr_props ?E0 ''site/pets'' (?fs(''out/cache/not_found_site/pets'' \<mapsto> []))
              = (Inr JNull, ?fs(''out/cache/not_found_site/pets'' \<mapsto> []))"
    using T [where env = ?E0 and url = "''site/pets''"
        and fs = "?fs(''out/cache/not_found_site/pets'' \<mapsto> [])",
        THEN conjunct2, THEN conjunct2, THEN conjunct2, THEN conjunct2, THEN conjunct1]
    by (simp add: demo_env_def)
  have c6a: "fold_err (crawl_page ?E3 ''site/'' [JStr ''intro'']) [?pets] ?st
      = fold_err (crawl_page ?E3 ''site/'' [JStr ''intro'']) []
          (?st\<lparr>files := snd (fetch_ssr_props ?E3 (''site/'' @ ''pets'') (files ?st)),
               fetched := fetched ?st @ [''site/'' @ ''pets'']\<rparr>)"
    using T [where env = ?E3 and page = ?pets and later_pages = "[]" and props = JNull
        and s = "''pets''" and nonref = "[JStr ''intro'']" and t = "JStr ''Pets''"
        and url_prefix = "''site/''" and st = ?st,
        THEN conjunct2, THEN conjunct2, THEN conjunct2, THEN conjunct2, THEN conjunct2] c4
    by (simp add: set_contains_def py_eq_def)
  let ?stN = "\<lparr>files = demo_cache [(''site/pets'', ''N'')], oas_definition = [], fetched = []\<rparr>"
  let ?stZ = "\<lparr>files = demo_cache [(''site/pets'', ''Z'')], oas_definition = [], fetched = []\<rparr>"
  have c6b: "fold_err (crawl_page ?E0 ''site/'' [JStr ''intro'']) [?pets] ?stN
      = fold_err (crawl_page ?E0 ''site/'' [JStr ''intro'']) []
          (?stN\<lparr>files := snd (fetch_ssr_props ?E0 (''site/'' @ ''pets'') (files ?stN)),
               fetched := fetched ?stN @ [''site/'' @ ''pets'']\<rparr>)"
    using T [where env = ?E0 and page = ?pets and later_pages = "[]"
        and props = "JObj [(''title'', JStr ''Changelog'')]"
        and s = "''pets''" and nonref = "[JStr ''intro'']" and t = "JStr ''Pets''"
        and url_prefix = "''site/''" and st = ?stN,
        THEN conjunct2, THEN conjunct2, THEN conjunct2, THEN conjunct2, THEN conjunct2]
    by (simp add: set_contains_def py_eq_def fetch_ssr_props_def demo_env_def demo_cache_def
        table_loads_def)
  have c6c: "fold_err (crawl_page ?E0 ''site/'' [JStr ''intro'']) [?pets] ?stZ
      = fold_err (crawl_page ?E0 ''site/'' [JStr ''intro'']) []
          (?stZ\<lparr>files := snd (fetch_ssr_props ?E0 (''site/'' @ ''pets'') (files ?stZ)),
               fetched := fetched ?stZ @ [''site/'' @ ''pets'']\<rparr>)"
    using T [where env = ?E0 and page = ?pets and later_pages = "[]"
        and props = "JObj [(''oasDefinition'', JObj [])]"
        and s = "''pets''" and nonref = "[JStr ''intro'']" and t = "JStr ''Pets''"
        and url_prefix = "''site/''" and st = ?stZ,
        THEN conjunct2, THEN conjunct2, THEN conjunct2, THEN conjunct2, THEN conjunct2]
    by (simp add: set_contains_def py_eq_def fetch_ssr_props_def demo_env_def demo_cache_def
        table_loads_def)
  have d6a: "map_sum fst (\<lambda>st. (oas_definition st, fetched st))
      (fold_err (crawl_page ?E3 ''site/'' [JStr ''intro'']) [?pets] ?st) = Inr ([], [''site/pets''])"
    unfolding c6a by simp
  have d6b: "map_sum fst (\<lambda>st. (oas_definition st, fetched st))
      (fold_err (crawl_page ?E0 ''site/'' [JStr ''intro'']) [?pets] ?stN) = Inr ([], [''site/pets''])"
    unfolding c6b by simp
  have d6c: "map_sum fst (\<lambda>st. (oas_definition st, fetched st))
      (fold_err (crawl_page ?E0 ''site/'' [JStr ''intro'']) [?pets] ?stZ) = Inr ([], [''site/pets''])"
    unfolding c6c by simp
  show ?thesis
    using c1 c2 c3 c4 c5 d6a d6b d6c by (simp del: fold_err.simps)
qed

end
